theory Spec2Isabelle
  imports Complex_Main "HOL-Library.Multiset"
begin

section \<open>Numbers\<close>

text \<open>
  The program computes with JavaScript numbers. They are embedded as exact reals: sums,
  products, comparisons, \<open>Math.max\<close> and \<open>Math.min\<close> are the real ones, and the values
  \<open>NaN\<close>, \<open>Infinity\<close> and \<open>undefined\<close> have no counterpart. Array reads and writes are
  therefore only described for indices inside the array; every statement about them carries
  that condition.

  \<open>Number(x.toFixed(2))\<close> is the decimal with two fractional digits nearest to \<open>x\<close>; of two
  nearest ones \<open>toFixed\<close> takes the larger in magnitude.
\<close>

definition toFixed2 :: "real \<Rightarrow> real" where
  "toFixed2 x =
     (if x < 0 then - (real_of_int \<lfloor>- x * 100 + 1 / 2\<rfloor> / 100)
      else real_of_int \<lfloor>x * 100 + 1 / 2\<rfloor> / 100)"

section \<open>Grid line positions\<close>

text \<open>
  \<^verbatim>\<open>
  const generatePositions = (count: number) => {
    if (count < 1) return [0, 100];
    const step = 100 / count;
    const positions = [];
    for (let i = 0; i <= count; i++) {
      positions.push(Number((i * step).toFixed(2)));
    }
    return positions;
  };
  \<close>
  The loop is the recursion \<open>positions_loop\<close> on the counter \<open>i\<close>; the parameter \<open>count\<close> is
  written \<open>cnt\<close>.
\<close>

function positions_loop :: "int \<Rightarrow> real \<Rightarrow> int \<Rightarrow> real list \<Rightarrow> real list" where
  "positions_loop cnt step i positions =
     (if i \<le> cnt
      then positions_loop cnt step (i + 1) (positions @ [toFixed2 (of_int i * step)])
      else positions)"
  by pat_completeness auto
termination
  by (relation "measure (\<lambda>(cnt, step, i, positions). nat (cnt + 1 - i))") auto

declare positions_loop.simps [simp del]

definition generatePositions :: "int \<Rightarrow> real list" where
  "generatePositions cnt =
     (if cnt < 1 then [0, 100]
      else positions_loop cnt (100 / of_int cnt) 0 [])"

section \<open>Data\<close>

text \<open>
  The interfaces \<open>Rect\<close>, \<open>Margins\<close>, \<open>SplitResult\<close> and \<open>HistoryState\<close> of the
  source, field by field. Fields whose source name is a constant of the logic or is used by
  two records carry a prefix or suffix (\<open>rect_x\<close> for \<open>Rect.x\<close>, \<open>m_top\<close> for
  \<open>Margins.top\<close>, \<open>ident\<close> for \<open>SplitResult.id\<close>, \<open>rowsH\<close> for \<open>HistoryState.rows\<close>).
  An optional field is an \<open>option\<close>.
\<close>

record Rect =
  rect_x :: real
  rect_y :: real
  rect_w :: real
  rect_h :: real

record Margins =
  m_top :: real
  m_bottom :: real
  m_left :: real
  m_right :: real

record Offset =
  off_x :: real
  off_y :: real

datatype format = PNG | GIF

datatype output_size = Auto | Px int

text \<open>
  Of an \<open>HTMLImageElement\<close> the program reads the natural size and copies pixels. A canvas
  is its size, as assigned by the program, and the drawing calls made on its context, in
  order; a canvas on which nothing was drawn is blank. A blob is the encoding of a canvas:
  \<open>PngOf c\<close> is what \<open>c.toBlob(\<dots>, 'image/png')\<close> delivers, \<open>GifOf c t\<close> the single-frame
  GIF written by the encoder from the pixels of \<open>c\<close> with transparent index \<open>t\<close>.
\<close>

record image =
  naturalWidth :: nat
  naturalHeight :: nat

datatype canvas = Canvas (cwidth: real) (cheight: real) (drawn: "draw_op list")
  and draw_op =
    FillRect string real real real real
  | ClearRect real real real real
  | DrawImage image real real real real real real real real
  | DrawCanvas canvas real real real real

datatype blob = PngOf canvas | GifOf canvas "nat option"

fun canvas_of :: "blob \<Rightarrow> canvas" where
  "canvas_of (PngOf c) = c"
| "canvas_of (GifOf c t) = c"

datatype url = ObjectURL blob

record SplitResult =
  ident :: nat
  dataUrl :: url
  blob :: blob
  extension :: format
  originalRect :: Rect
  margins :: "Margins option"
  offset :: "Offset option"
  isSquare :: "bool option"
  bgColor :: "string option"
  outputSize :: "output_size option"

record HistoryState =
  rowsH :: int
  colsH :: int
  rowPositionsH :: "real list"
  colPositionsH :: "real list"

datatype axis = Row | Col

record line =
  line_type :: axis
  line_index :: nat

datatype error = ContextCreationFailed | CanvasToBlobFailed | TypeError

section \<open>The browser\<close>

text \<open>
  What the browser answers during one call of \<open>generateImageBlob\<close>: whether each
  \<open>getContext('2d')\<close> returns a context, whether \<open>toBlob\<close> passes a blob or \<open>null\<close>, what
  the two dynamic imports of the GIF encoder deliver (\<open>None\<close>: the import is rejected;
  otherwise which of the three exports are found), whether the pixel data of the final canvas
  can be read, and whether the encoder runs without throwing.
\<close>

record gif_module =
  has_GIFEncoder :: bool
  has_quantize :: bool
  has_applyPalette :: bool

record browser =
  base_context :: bool
  resize_context :: bool
  toBlob_result :: bool
  gifenc :: "gif_module option"
  gifenc_cdn :: "gif_module option"
  image_data :: bool
  encoder_ok :: bool

datatype gif_error = ImportRejected | ExportsNotFound | NoImageData | EncoderThrew

text \<open>
  The repository holds two revisions of the application, \<^verbatim>\<open>src/App.tsx\<close> and
  \<^verbatim>\<open>src/unnamed/part_000\<close>. Where a function is the same in both it is embedded once; where the
  two differ, the revision is a parameter or each has its own definition.
\<close>

datatype version = AppTsx | Part000

section \<open>Compositing one cell\<close>

text \<open>
  The \<open>try\<close> block of the GIF branch of \<open>generateImageBlob\<close>; \<open>Some e\<close> is an exception on
  its way to the \<open>catch\<close>. In \<^verbatim>\<open>App.tsx\<close>:
  \<^verbatim>\<open>
  const gifModule: any = await import('gifenc');
  const GIFEncoder = gifModule.GIFEncoder || gifModule.default?.GIFEncoder;
  const quantize = ...; const applyPalette = ...;
  if (!GIFEncoder) throw new Error("GIF Library exports not found");
  const data = finalCanvas.getContext('2d')?.getImageData(...).data;
  if (!data) throw new Error('No image data');
  const palette = quantize(data, 256, { format: 'rgba4444' });
  const index = applyPalette(data, palette, 'rgba4444');
  const encoder = new GIFEncoder();
  encoder.writeFrame(...); encoder.finish();
  return new Blob([encoder.bytes()], { type: 'image/gif' });
  \<close>
  In \<^verbatim>\<open>part_000\<close> the check after the import is
  \<^verbatim>\<open>if (!GIFEncoder || !quantize || !applyPalette) { ... }\<close>, whose body imports the
  encoder from \<^verbatim>\<open>https://esm.sh/gifenc@1.0.3\<close>, throws if that module has no \<open>GIFEncoder\<close>, and
  otherwise encodes with it in the same way. Calling an export that was not found is a
  \<open>TypeError\<close>, here \<open>EncoderThrew\<close>.
\<close>

definition encode_with :: "browser \<Rightarrow> gif_module \<Rightarrow> gif_error option" where
  "encode_with env m =
     (if \<not> image_data env then Some NoImageData
      else if \<not> has_quantize m \<or> \<not> has_applyPalette m \<or> \<not> encoder_ok env
      then Some EncoderThrew
      else None)"

fun gif_outcome :: "version \<Rightarrow> browser \<Rightarrow> gif_error option" where
  "gif_outcome AppTsx env =
     (case gifenc env of
        None \<Rightarrow> Some ImportRejected
      | Some m \<Rightarrow>
          if \<not> has_GIFEncoder m then Some ExportsNotFound
          else encode_with env m)"
| "gif_outcome Part000 env =
     (case gifenc env of
        None \<Rightarrow> Some ImportRejected
      | Some m \<Rightarrow>
          if \<not> has_GIFEncoder m \<or> \<not> has_quantize m \<or> \<not> has_applyPalette m
          then (case gifenc_cdn env of
                  None \<Rightarrow> Some ImportRejected
                | Some m' \<Rightarrow>
                    if \<not> has_GIFEncoder m' then Some ExportsNotFound
                    else encode_with env m')
          else encode_with env m)"

text \<open>
  \<^verbatim>\<open>
  let canvasWidth = rect.w + margins.left + margins.right;
  let canvasHeight = rect.h + margins.top + margins.bottom;
  if (isSquare) {
      const size = Math.max(canvasWidth, canvasHeight);
      canvasWidth = size; canvasHeight = size;
  }
  \<close>
\<close>

definition canvasWidth :: "Rect \<Rightarrow> Margins \<Rightarrow> bool \<Rightarrow> real" where
  "canvasWidth rect mg sq =
     (if sq then max (rect_w rect + m_left mg + m_right mg) (rect_h rect + m_top mg + m_bottom mg)
      else rect_w rect + m_left mg + m_right mg)"

definition canvasHeight :: "Rect \<Rightarrow> Margins \<Rightarrow> bool \<Rightarrow> real" where
  "canvasHeight rect mg sq =
     (if sq then max (rect_w rect + m_left mg + m_right mg) (rect_h rect + m_top mg + m_bottom mg)
      else rect_h rect + m_top mg + m_bottom mg)"

text \<open>
  The base canvas after the background and the copy of the source rectangle:
  \<^verbatim>\<open>
  if (bgColor === 'white') { ctx.fillStyle = '#ffffff'; ctx.fillRect(0, 0, canvasWidth, canvasHeight); }
  else { ctx.clearRect(0, 0, canvasWidth, canvasHeight); }
  const contentW = rect.w + margins.left + margins.right;
  const contentH = rect.h + margins.top + margins.bottom;
  const startX = (canvasWidth - contentW) / 2 + margins.left + offset.x;
  const startY = (canvasHeight - contentH) / 2 + margins.top + offset.y;
  ctx.drawImage(image, rect.x, rect.y, rect.w, rect.h, startX, startY, rect.w, rect.h);
  \<close>
\<close>

definition background :: "string \<Rightarrow> real \<Rightarrow> real \<Rightarrow> draw_op" where
  "background bg cw ch =
     (if bg = ''white'' then FillRect ''#ffffff'' 0 0 cw ch else ClearRect 0 0 cw ch)"

definition base_canvas :: "image \<Rightarrow> Rect \<Rightarrow> Margins \<Rightarrow> Offset \<Rightarrow> bool \<Rightarrow> string \<Rightarrow> canvas" where
  "base_canvas img rect mg off sq bg =
     (let cw = canvasWidth rect mg sq;
          ch = canvasHeight rect mg sq;
          contentW = rect_w rect + m_left mg + m_right mg;
          contentH = rect_h rect + m_top mg + m_bottom mg;
          startX = (cw - contentW) / 2 + m_left mg + off_x off;
          startY = (ch - contentH) / 2 + m_top mg + off_y off
      in Canvas cw ch
           [background bg cw ch,
            DrawImage img (rect_x rect) (rect_y rect) (rect_w rect) (rect_h rect)
              startX startY (rect_w rect) (rect_h rect)])"

text \<open>
  \<^verbatim>\<open>
  let finalCanvas = canvas;
  if (typeof outputSize === 'number' && (canvasWidth !== outputSize || canvasHeight !== outputSize)) {
      finalCanvas = document.createElement('canvas');
      finalCanvas.width = outputSize; finalCanvas.height = outputSize;
      const fCtx = finalCanvas.getContext('2d');
      if (fCtx) {
        if (bgColor === 'white') { fCtx.fillStyle = '#ffffff'; fCtx.fillRect(0, 0, outputSize, outputSize); }
        fCtx.drawImage(canvas, 0, 0, outputSize, outputSize);
      }
  }
  \<close>
\<close>

definition final_canvas :: "browser \<Rightarrow> canvas \<Rightarrow> string \<Rightarrow> output_size \<Rightarrow> canvas" where
  "final_canvas env cv bg osz =
     (case osz of
        Auto \<Rightarrow> cv
      | Px n \<Rightarrow>
          if cwidth cv \<noteq> of_int n \<or> cheight cv \<noteq> of_int n
          then Canvas (of_int n) (of_int n)
                 (if resize_context env
                  then (if bg = ''white''
                        then [FillRect ''#ffffff'' 0 0 (of_int n) (of_int n)] else [])
                       @ [DrawCanvas cv 0 0 (of_int n) (of_int n)]
                  else [])
          else cv)"

text \<open>
  \<open>generateImageBlob\<close> returns the settled promise together with the messages it passed to
  \<open>alert\<close>: \<open>Inl e\<close> is a rejection, \<open>Inr None\<close> the value \<open>null\<close> (the fallback resolves with
  whatever \<open>toBlob\<close> passes, \<^verbatim>\<open>resolve(b!)\<close>).
  \<^verbatim>\<open>
  const ctx = canvas.getContext('2d', { willReadFrequently: true });
  if (!ctx) throw new Error('Context creation failed');
  ...
  if (format === 'png') {
      return new Promise((resolve, reject) => {
          finalCanvas.toBlob((blob) => {
              if (blob) resolve(blob);
              else reject(new Error('Canvas to Blob failed'));
          }, 'image/png');
      });
  } else {
      try { ... return new Blob([encoder.bytes()], { type: 'image/gif' }); }
      catch (e) {
          console.error("GIF generation error:", e);
          return new Promise((resolve) => {
            finalCanvas.toBlob(b => resolve(b!), 'image/png');
            alert("GIF generation failed, falling back to PNG.");
          });
      }
  }
  \<close>
\<close>

definition generateImageBlob ::
  "version \<Rightarrow> browser \<Rightarrow> image \<Rightarrow> Rect \<Rightarrow> Margins \<Rightarrow> Offset \<Rightarrow> bool \<Rightarrow> string \<Rightarrow>
   output_size \<Rightarrow> format \<Rightarrow> (error + blob option) \<times> string list" where
  "generateImageBlob v env img rect mg off sq bg osz fmt =
     (if \<not> base_context env then (Inl ContextCreationFailed, [])
      else
        let finalCanvas = final_canvas env (base_canvas img rect mg off sq bg) bg osz
        in case fmt of
             PNG \<Rightarrow>
               if toBlob_result env then (Inr (Some (PngOf finalCanvas)), [])
               else (Inl CanvasToBlobFailed, [])
           | GIF \<Rightarrow>
               (case gif_outcome v env of
                  None \<Rightarrow>
                    (Inr (Some (GifOf finalCanvas (if bg \<noteq> ''white'' then Some 0 else None))), [])
                | Some e \<Rightarrow>
                    (Inr (if toBlob_result env then Some (PngOf finalCanvas) else None),
                     [''GIF generation failed, falling back to PNG.''])))"

section \<open>The application state\<close>

text \<open>
  The \<open>useState\<close> cells and the \<open>isUndoRedo\<close> ref of the component \<open>App\<close> that the embedded
  handlers read or write, and the messages passed to \<open>alert\<close> so far. A handler is a function
  from the state before the event to the state after it.
\<close>

record app_state =
  imageElement :: "image option"
  rows :: int
  cols :: int
  rowPositions :: "real list"
  colPositions :: "real list"
  paddingX :: real
  paddingY :: real
  fmt_setting :: format
  size_setting :: output_size
  isProcessing :: bool
  selectedLine :: "line option"
  results :: "SplitResult list option"
  editingResult :: "SplitResult option"
  history :: "HistoryState list"
  historyIndex :: int
  isUndoRedo :: bool
  alerts :: "string list"

text \<open>The state of \<open>App\<close> at its first render.\<close>

definition initial_state :: app_state where
  "initial_state =
     \<lparr>imageElement = None, rows = 4, cols = 4,
      rowPositions = [0, 25, 50, 75, 100], colPositions = [0, 25, 50, 75, 100],
      paddingX = 0, paddingY = 0, fmt_setting = PNG, size_setting = Auto,
      isProcessing = False, selectedLine = None, results = None, editingResult = None,
      history = [], historyIndex = - 1, isUndoRedo = False, alerts = []\<rparr>"

section \<open>Grid history\<close>

text \<open>
  \<open>xs.slice(0, e)\<close>: a negative \<open>e\<close> counts from the end. \<open>xs[i]\<close> is \<open>undefined\<close>, here
  \<open>None\<close>, outside the array.
\<close>

definition slice0 :: "'a list \<Rightarrow> int \<Rightarrow> 'a list" where
  "slice0 xs e = (if e < 0 then take (nat (int (length xs) + e)) xs else take (nat e) xs)"

definition js_nth :: "'a list \<Rightarrow> int \<Rightarrow> 'a option" where
  "js_nth xs i = (if 0 \<le> i \<and> i < int (length xs) then Some (xs ! nat i) else None)"

text \<open>
  \<^verbatim>\<open>
  const addToHistory = (newState: HistoryState) => {
      if (isUndoRedo.current) return;
      setHistory(prev => {
          const current = prev.slice(0, historyIndex + 1);
          const last = current[current.length - 1];
          if (last && JSON.stringify(last) === JSON.stringify(newState)) return current;
          const next = [...current, newState];
          setHistoryIndex(next.length - 1);
          return next;
      });
  };
  \<close>
  Every snapshot is built with the same four keys in the same order, so two snapshots have the
  same JSON text exactly when they are equal.
\<close>

definition addToHistory :: "HistoryState \<Rightarrow> app_state \<Rightarrow> app_state" where
  "addToHistory newState st =
     (if isUndoRedo st then st
      else
        let current = slice0 (history st) (historyIndex st + 1)
        in case js_nth current (int (length current) - 1) of
             Some lst \<Rightarrow>
               if lst = newState then st\<lparr>history := current\<rparr>
               else st\<lparr>history := current @ [newState],
                       historyIndex := int (length (current @ [newState])) - 1\<rparr>
           | None \<Rightarrow>
               st\<lparr>history := current @ [newState],
                  historyIndex := int (length (current @ [newState])) - 1\<rparr>)"

text \<open>
  \<^verbatim>\<open>
  const handleUndo = () => {
      if (historyIndex > 0) {
          isUndoRedo.current = true;
          const prev = history[historyIndex - 1];
          setRows(prev.rows); setCols(prev.cols);
          setRowPositions(prev.rowPositions); setColPositions(prev.colPositions);
          setHistoryIndex(historyIndex - 1);
          setTimeout(() => isUndoRedo.current = false, 0);
      }
  };
  \<close>
  and \<open>handleRedo\<close> likewise with \<open>historyIndex < history.length - 1\<close> and
  \<open>history[historyIndex + 1]\<close>. Reading a field of \<open>undefined\<close> is a \<open>TypeError\<close>. The timer is
  the step \<open>timer_fired\<close>.
\<close>

definition apply_snapshot :: "HistoryState \<Rightarrow> app_state \<Rightarrow> app_state" where
  "apply_snapshot s st =
     st\<lparr>rows := rowsH s, cols := colsH s,
        rowPositions := rowPositionsH s, colPositions := colPositionsH s\<rparr>"

definition handleUndo :: "app_state \<Rightarrow> error + app_state" where
  "handleUndo st =
     (if historyIndex st > 0
      then (case js_nth (history st) (historyIndex st - 1) of
              None \<Rightarrow> Inl TypeError
            | Some prev \<Rightarrow>
                Inr ((apply_snapshot prev (st\<lparr>isUndoRedo := True\<rparr>))
                       \<lparr>historyIndex := historyIndex st - 1\<rparr>))
      else Inr st)"

definition handleRedo :: "app_state \<Rightarrow> error + app_state" where
  "handleRedo st =
     (if historyIndex st < int (length (history st)) - 1
      then (case js_nth (history st) (historyIndex st + 1) of
              None \<Rightarrow> Inl TypeError
            | Some nxt \<Rightarrow>
                Inr ((apply_snapshot nxt (st\<lparr>isUndoRedo := True\<rparr>))
                       \<lparr>historyIndex := historyIndex st + 1\<rparr>))
      else Inr st)"

definition timer_fired :: "app_state \<Rightarrow> app_state" where
  "timer_fired st = st\<lparr>isUndoRedo := False\<rparr>"

text \<open>The snapshot \<^verbatim>\<open>{ rows, cols, rowPositions, colPositions }\<close> of the live grid.\<close>

definition snapshot :: "app_state \<Rightarrow> HistoryState" where
  "snapshot st =
     \<lparr>rowsH = rows st, colsH = cols st,
      rowPositionsH = rowPositions st, colPositionsH = colPositions st\<rparr>"

text \<open>
  \<open>img.onload\<close> of \<open>handleUpload\<close>:
  \<^verbatim>\<open>
  setImageElement(img);
  const initR = generatePositions(4); const initC = generatePositions(4);
  setRowPositions(initR); setColPositions(initC);
  setHistory([{ rows: 4, cols: 4, rowPositions: initR, colPositions: initC }]);
  setHistoryIndex(0);
  \<close>
\<close>

definition handleUpload :: "image \<Rightarrow> app_state \<Rightarrow> app_state" where
  "handleUpload img st =
     (let initR = generatePositions 4; initC = generatePositions 4
      in st\<lparr>imageElement := Some img, rowPositions := initR, colPositions := initC,
            history := [\<lparr>rowsH = 4, colsH = 4, rowPositionsH = initR, colPositionsH = initC\<rparr>],
            historyIndex := 0\<rparr>)"

section \<open>Moving a grid line\<close>

text \<open>
  A line is addressed by its position \<open>index\<close> in the array of its axis. The handlers get the
  index from a rendered line (\<^verbatim>\<open>rowPositions.map((pos, i) => ...)\<close>), so it lies inside the
  array; the statements below assume so.

  \<^verbatim>\<open>part_000\<close>:
  \<^verbatim>\<open>
  const updateLinePosition = (type: 'row'|'col', index: number, newPct: number) => {
      const pct = Math.max(0, Math.min(100, newPct));
      if (type === 'row') {
          setRowPositions(prev => {
              const next = [...prev]; next[index] = Number(pct.toFixed(2));
              return next.sort((a,b) => a-b);
          });
      } else { /* the same on colPositions */ }
  };
  \<close>
\<close>

definition updateLinePosition :: "axis \<Rightarrow> nat \<Rightarrow> real \<Rightarrow> app_state \<Rightarrow> app_state" where
  "updateLinePosition type index newPct st =
     (let pct = max 0 (min 100 newPct)
      in case type of
           Row \<Rightarrow> st\<lparr>rowPositions := sort ((rowPositions st)[index := toFixed2 pct])\<rparr>
         | Col \<Rightarrow> st\<lparr>colPositions := sort ((colPositions st)[index := toFixed2 pct])\<rparr>)"

text \<open>
  The pointer-move listener installed by \<open>onLineDragStart\<close>; \<open>box\<close> is the bounding box of
  the container taken when the drag started.
  \<^verbatim>\<open>
  const isRow = type === 'row';
  const clientPos = isRow ? ev.clientY : ev.clientX;
  const startPos = isRow ? rect.top : rect.left;
  const dimension = isRow ? rect.height : rect.width;
  \<close>
  \<^verbatim>\<open>App.tsx\<close> continues
  \<^verbatim>\<open>
  let pct = ((clientPos - startPos) / dimension) * 100;
  pct = Math.max(0, Math.min(100, pct));
  if (isRow) { setRowPositions(prev => { const next = [...prev]; next[index] = pct;
                                         return next.sort((a,b) => a-b); }); }
  else { /* the same on colPositions */ }
  \<close>
  and \<^verbatim>\<open>part_000\<close>
  \<^verbatim>\<open>
  const pct = ((clientPos - startPos) / dimension) * 100;
  updateLinePosition(type, index, pct);
  \<close>
  A container of extent zero makes the quotient infinite or \<open>NaN\<close>; the statements below
  assume a positive extent.
\<close>

record pointer =
  clientX :: real
  clientY :: real

record bounds =
  box_left :: real
  box_top :: real
  box_width :: real
  box_height :: real

definition drag_pct :: "axis \<Rightarrow> bounds \<Rightarrow> pointer \<Rightarrow> real" where
  "drag_pct type box ev =
     (let clientPos = (case type of Row \<Rightarrow> clientY ev | Col \<Rightarrow> clientX ev);
          startPos = (case type of Row \<Rightarrow> box_top box | Col \<Rightarrow> box_left box);
          dimension = (case type of Row \<Rightarrow> box_height box | Col \<Rightarrow> box_width box)
      in ((clientPos - startPos) / dimension) * 100)"

fun handleMove :: "version \<Rightarrow> axis \<Rightarrow> nat \<Rightarrow> bounds \<Rightarrow> pointer \<Rightarrow> app_state \<Rightarrow> app_state" where
  "handleMove AppTsx type index box ev st =
     (let pct = max 0 (min 100 (drag_pct type box ev))
      in case type of
           Row \<Rightarrow> st\<lparr>rowPositions := sort ((rowPositions st)[index := pct])\<rparr>
         | Col \<Rightarrow> st\<lparr>colPositions := sort ((colPositions st)[index := pct])\<rparr>)"
| "handleMove Part000 type index box ev st =
     updateLinePosition type index (drag_pct type box ev) st"

text \<open>
  The pointer-up listener of \<^verbatim>\<open>part_000\<close> commits the grid as it stands:
  \<^verbatim>\<open>
  addToHistory({ rows, cols, rowPositions: rowPositionsRef.current,
                 colPositions: colPositionsRef.current });
  \<close>
\<close>

definition handleUp :: "app_state \<Rightarrow> app_state" where
  "handleUp st = addToHistory (snapshot st) st"

text \<open>
  \<^verbatim>\<open>part_000\<close>, called by the nudge buttons and by the arrow keys:
  \<^verbatim>\<open>
  const handleNudge = (dir: 'up'|'down'|'left'|'right', fast: boolean,
                       line: {type:'row'|'col', index:number}) => {
      const step = fast ? 2.0 : 0.2;
      const currentArr = line.type === 'row' ? rowPositions : colPositions;
      const currentVal = currentArr[line.index];
      let newVal = currentVal;
      if (line.type === 'row') {
          if (dir === 'up') newVal -= step;
          if (dir === 'down') newVal += step;
      } else {
          if (dir === 'left') newVal -= step;
          if (dir === 'right') newVal += step;
      }
      updateLinePosition(line.type, line.index, newVal);
  };
  \<close>
\<close>

text \<open>
  \<open>handleNudge\<close> reads \<open>rowPositions\<close> and \<open>colPositions\<close> of the render it was created in,
  the state \<open>seen\<close>, and \<open>updateLinePosition\<close> updates the current state. For the nudge buttons
  the two are the same state. The key listener is registered again only when \<open>selectedLine\<close>,
  \<open>history\<close>, \<open>historyIndex\<close>, \<open>rows\<close> or \<open>cols\<close> change, so the \<open>handleNudge\<close> it calls may
  read arrays older than the current ones.
\<close>

datatype direction = Up | Down | Left | Right

definition currentArr :: "axis \<Rightarrow> app_state \<Rightarrow> real list" where
  "currentArr type st = (case type of Row \<Rightarrow> rowPositions st | Col \<Rightarrow> colPositions st)"


definition handleNudge ::
  "direction \<Rightarrow> bool \<Rightarrow> line \<Rightarrow> app_state \<Rightarrow> app_state \<Rightarrow> app_state" where
  "handleNudge dir fast sel seen st =
     (let step = (if fast then 2.0 else 0.2);
          currentVal = currentArr (line_type sel) seen ! line_index sel;
          newVal =
            (case line_type sel of
               Row \<Rightarrow> (if dir = Up then currentVal - step
                        else if dir = Down then currentVal + step else currentVal)
             | Col \<Rightarrow> (if dir = Left then currentVal - step
                        else if dir = Right then currentVal + step else currentVal))
      in updateLinePosition (line_type sel) (line_index sel) newVal st)"

text \<open>
  The arrow-key branch of \<open>handleKeyDown\<close> in \<^verbatim>\<open>App.tsx\<close>, for a selected row line (the
  branch for a column line is the same on \<open>newCP\<close>):
  \<^verbatim>\<open>
  const step = e.shiftKey ? 2 : 0.2;
  let newRP = [...rowPositionsRef.current];
  let newCP = [...colPositionsRef.current];
  let changed = false;
  const idx = selectedLine.index;
  if (e.key === 'ArrowUp' || e.key === 'ArrowLeft') {
      const limit = idx > 0 ? newRP[idx-1] : -10;
      const newVal = Math.max(limit + 0.1, newRP[idx] - step);
      if (newVal !== newRP[idx]) { newRP[idx] = Number(newVal.toFixed(2)); changed = true; }
  } else {
      const limit = idx < newRP.length - 1 ? newRP[idx+1] : 110;
      const newVal = Math.min(limit - 0.1, newRP[idx] + step);
      if (newVal !== newRP[idx]) { newRP[idx] = Number(newVal.toFixed(2)); changed = true; }
  }
  if (changed) {
      setRowPositions(newRP); setColPositions(newCP);
      addToHistory({ rows, cols, rowPositions: newRP, colPositions: newCP });
  }
  \<close>
\<close>

datatype key = ArrowUp | ArrowDown | ArrowLeft | ArrowRight | KeyZ | OtherKey

record key_event =
  target_is_input :: bool
  ctrlKey :: bool
  metaKey :: bool
  shiftKey :: bool
  pressed :: key

definition move_back :: "real list \<Rightarrow> nat \<Rightarrow> real \<Rightarrow> real list \<times> bool" where
  "move_back arr idx step =
     (let limit = (if idx > 0 then arr ! (idx - 1) else - 10);
          newVal = max (limit + 0.1) (arr ! idx - step)
      in if newVal \<noteq> arr ! idx then (arr[idx := toFixed2 newVal], True) else (arr, False))"

definition move_forth :: "real list \<Rightarrow> nat \<Rightarrow> real \<Rightarrow> real list \<times> bool" where
  "move_forth arr idx step =
     (let limit = (if idx < length arr - 1 then arr ! (idx + 1) else 110);
          newVal = min (limit - 0.1) (arr ! idx + step)
      in if newVal \<noteq> arr ! idx then (arr[idx := toFixed2 newVal], True) else (arr, False))"

definition arrow_move :: "key \<Rightarrow> real list \<Rightarrow> nat \<Rightarrow> real \<Rightarrow> real list \<times> bool" where
  "arrow_move k arr idx step =
     (if k = ArrowUp \<or> k = ArrowLeft then move_back arr idx step else move_forth arr idx step)"

definition is_arrow :: "key \<Rightarrow> bool" where
  "is_arrow k = (k = ArrowUp \<or> k = ArrowDown \<or> k = ArrowLeft \<or> k = ArrowRight)"

definition arrow_nudge :: "key \<Rightarrow> bool \<Rightarrow> line \<Rightarrow> app_state \<Rightarrow> app_state" where
  "arrow_nudge k shift sel st =
     (let step = (if shift then 2 else 0.2);
          (newRP, newCP, changed) =
            (case line_type sel of
               Row \<Rightarrow> (let (a, ch) = arrow_move k (rowPositions st) (line_index sel) step
                        in (a, colPositions st, ch))
             | Col \<Rightarrow> (let (a, ch) = arrow_move k (colPositions st) (line_index sel) step
                        in (rowPositions st, a, ch)))
      in if changed
         then addToHistory
                \<lparr>rowsH = rows st, colsH = cols st, rowPositionsH = newRP, colPositionsH = newCP\<rparr>
                (st\<lparr>rowPositions := newRP, colPositions := newCP\<rparr>)
         else st)"

text \<open>
  \<open>handleKeyDown\<close> as a whole. Both revisions begin
  \<^verbatim>\<open>
  if (e.target instanceof HTMLInputElement) return;
  if ((e.ctrlKey || e.metaKey) && e.key.toLowerCase() === 'z') {
      e.preventDefault();
      if (e.shiftKey) handleRedo(); else handleUndo();
      return;
  }
  if (selectedLine) {
      if (['ArrowUp', 'ArrowDown', 'ArrowLeft', 'ArrowRight'].includes(e.key)) {
  \<close>
  and \<^verbatim>\<open>part_000\<close> then maps the key to a direction and calls
  \<^verbatim>\<open>handleNudge(dir, e.shiftKey, selectedLine)\<close>, the \<open>handleNudge\<close> of the render \<open>seen\<close> in which
  the listener was registered. \<^verbatim>\<open>App.tsx\<close> reads the arrays through refs (its comment: "Use Refs
  for latest state"), which hold the current ones. What else the listener reads,
  \<open>selectedLine\<close>, \<open>history\<close>, \<open>historyIndex\<close>, \<open>rows\<close> and \<open>cols\<close>, is current because a
  change of it registers the listener again.
\<close>

fun dirMap :: "key \<Rightarrow> direction option" where
  "dirMap ArrowUp = Some Up"
| "dirMap ArrowDown = Some Down"
| "dirMap ArrowLeft = Some Left"
| "dirMap ArrowRight = Some Right"
| "dirMap k = None"

definition handleKeyDown ::
  "version \<Rightarrow> key_event \<Rightarrow> app_state \<Rightarrow> app_state \<Rightarrow> error + app_state" where
  "handleKeyDown v e seen st =
     (if target_is_input e then Inr st
      else if (ctrlKey e \<or> metaKey e) \<and> pressed e = KeyZ
      then (if shiftKey e then handleRedo st else handleUndo st)
      else case selectedLine st of
             None \<Rightarrow> Inr st
           | Some sel \<Rightarrow>
               if is_arrow (pressed e)
               then (case v of
                       AppTsx \<Rightarrow> Inr (arrow_nudge (pressed e) (shiftKey e) sel st)
                     | Part000 \<Rightarrow>
                         (case dirMap (pressed e) of
                            Some dir \<Rightarrow> Inr (handleNudge dir (shiftKey e) sel seen st)
                          | None \<Rightarrow> Inr st))
               else Inr st)"

section \<open>Splitting the image\<close>

text \<open>
  The body of the two loops of \<open>handleSplit\<close>:
  \<^verbatim>\<open>
  const y1 = (sortedRows[r] / 100) * ih;
  const y2 = (sortedRows[r+1] / 100) * ih;
  const x1 = (sortedCols[c] / 100) * iw;
  const x2 = (sortedCols[c+1] / 100) * iw;
  const contentX = x1 + paddingX;
  const contentY = y1 + paddingY;
  const contentW = Math.max(1, (x2 - x1) - (paddingX * 2));
  const contentH = Math.max(1, (y2 - y1) - (paddingY * 2));
  const rect = { x: contentX, y: contentY, w: contentW, h: contentH };
  \<close>
\<close>

definition cellRect ::
  "real list \<Rightarrow> real list \<Rightarrow> nat \<Rightarrow> nat \<Rightarrow> real \<Rightarrow> real \<Rightarrow> real \<Rightarrow> real \<Rightarrow> Rect" where
  "cellRect sortedRows sortedCols r c iw ih px py =
     (let y1 = (sortedRows ! r / 100) * ih;
          y2 = (sortedRows ! (r + 1) / 100) * ih;
          x1 = (sortedCols ! c / 100) * iw;
          x2 = (sortedCols ! (c + 1) / 100) * iw;
          contentX = x1 + px;
          contentY = y1 + py;
          contentW = max 1 ((x2 - x1) - (px * 2));
          contentH = max 1 ((y2 - y1) - (py * 2))
      in \<lparr>rect_x = contentX, rect_y = contentY, rect_w = contentW, rect_h = contentH\<rparr>)"

text \<open>
  The rectangles in the order the loops reach them:
  \<^verbatim>\<open>
  for (let r = 0; r < sortedRows.length - 1; r++) {
      for (let c = 0; c < sortedCols.length - 1; c++) { ... } }
  \<close>
\<close>

definition cell_rects ::
  "real list \<Rightarrow> real list \<Rightarrow> real \<Rightarrow> real \<Rightarrow> real \<Rightarrow> real \<Rightarrow> Rect list" where
  "cell_rects sortedRows sortedCols iw ih px py =
     concat (map (\<lambda>r. map (\<lambda>c. cellRect sortedRows sortedCols r c iw ih px py)
                          [0..<length sortedCols - 1])
                 [0..<length sortedRows - 1])"

text \<open>
  What the loops do with each rectangle. \<open>envs k\<close> is the browser during the call of
  \<open>generateImageBlob\<close> made when \<open>idCounter\<close> is \<open>k\<close>. An exception leaves the loops for the
  \<open>catch\<close> of \<open>handleSplit\<close>; \<open>URL.createObjectURL(null)\<close> is a \<open>TypeError\<close>.
  \<^verbatim>\<open>
  const blob = await generateImageBlob(imageElement, rect, {top:0, bottom:0, left:0, right:0},
                                       {x:0, y:0}, false, 'transparent', outputSize, format);
  newResults.push({ id: idCounter++, dataUrl: URL.createObjectURL(blob), blob: blob,
                    extension: format, originalRect: rect, outputSize: outputSize });
  \<close>
\<close>

definition no_margins :: Margins where
  "no_margins = \<lparr>m_top = 0, m_bottom = 0, m_left = 0, m_right = 0\<rparr>"

definition no_offset :: Offset where
  "no_offset = \<lparr>off_x = 0, off_y = 0\<rparr>"

definition compose_cell ::
  "version \<Rightarrow> browser \<Rightarrow> image \<Rightarrow> Rect \<Rightarrow> output_size \<Rightarrow> format \<Rightarrow>
   (error + blob option) \<times> string list" where
  "compose_cell v env img rect osz fmt =
     generateImageBlob v env img rect no_margins no_offset False ''transparent'' osz fmt"

definition new_result :: "nat \<Rightarrow> blob \<Rightarrow> format \<Rightarrow> Rect \<Rightarrow> output_size \<Rightarrow> SplitResult" where
  "new_result n b fmt rect osz =
     \<lparr>ident = n, dataUrl = ObjectURL b, blob = b, extension = fmt, originalRect = rect,
      margins = None, offset = None, isSquare = None, bgColor = None, outputSize = Some osz\<rparr>"

fun split_cells ::
  "version \<Rightarrow> (nat \<Rightarrow> browser) \<Rightarrow> image \<Rightarrow> output_size \<Rightarrow> format \<Rightarrow> Rect list \<Rightarrow> nat \<Rightarrow>
   SplitResult list \<Rightarrow> string list \<Rightarrow> (error + SplitResult list) \<times> string list" where
  "split_cells v envs img osz fmt [] idCounter newResults shown = (Inr newResults, shown)"
| "split_cells v envs img osz fmt (rect # rest) idCounter newResults shown =
     (case compose_cell v (envs idCounter) img rect osz fmt of
        (Inl e, al) \<Rightarrow> (Inl e, shown @ al)
      | (Inr None, al) \<Rightarrow> (Inl TypeError, shown @ al)
      | (Inr (Some b), al) \<Rightarrow>
          split_cells v envs img osz fmt rest (idCounter + 1)
            (newResults @ [new_result idCounter b fmt rect osz]) (shown @ al))"

text \<open>
  \<^verbatim>\<open>
  const handleSplit = async () => {
      if (!imageElement) return;
      setIsProcessing(true);
      try {
          const newResults: SplitResult[] = [];
          const sortedRows = [...rowPositions].sort((a, b) => a - b);
          const sortedCols = [...colPositions].sort((a, b) => a - b);
          const iw = imageElement.naturalWidth;
          const ih = imageElement.naturalHeight;
          let idCounter = 0;
          for ... for ... { ... }
          setResults(newResults);
      } catch (error) { console.error(error); alert("Error splitting image"); }
      finally { setIsProcessing(false); }
  };
  \<close>
\<close>

definition handleSplit :: "version \<Rightarrow> (nat \<Rightarrow> browser) \<Rightarrow> app_state \<Rightarrow> app_state" where
  "handleSplit v envs st =
     (case imageElement st of
        None \<Rightarrow> st
      | Some img \<Rightarrow>
          let sortedRows = sort (rowPositions st);
              sortedCols = sort (colPositions st);
              iw = real (naturalWidth img);
              ih = real (naturalHeight img);
              rects = cell_rects sortedRows sortedCols iw ih (paddingX st) (paddingY st)
          in case split_cells v envs img (size_setting st) (fmt_setting st) rects 0 [] [] of
               (Inr newResults, al) \<Rightarrow>
                 st\<lparr>results := Some newResults, alerts := alerts st @ al, isProcessing := False\<rparr>
             | (Inl e, al) \<Rightarrow>
                 st\<lparr>alerts := alerts st @ al @ [''Error splitting image''],
                    isProcessing := False\<rparr>)"

section \<open>Saving a fine-tuned result\<close>

text \<open>
  The modal passes the new blob and
  \<^verbatim>\<open>{ margins, offset, isSquare, originalRect: rect, bgColor }\<close> to
  \<^verbatim>\<open>
  const handleSaveSingle = (newBlob: Blob, extra: any, action: 'close'|'stay') => {
      if (!editingResult || !results) return;
      const newUrl = URL.createObjectURL(newBlob);
      const newResults = results.map(r => r.id === editingResult.id
          ? { ...r, blob: newBlob, dataUrl: newUrl, ...extra } : r);
      setResults(newResults);
      if (action === 'close') setEditingResult(null);
  };
  \<close>
\<close>

record extra =
  e_margins :: Margins
  e_offset :: Offset
  e_isSquare :: bool
  e_originalRect :: Rect
  e_bgColor :: string

datatype action = Close | Stay

definition replace_result :: "blob \<Rightarrow> extra \<Rightarrow> SplitResult \<Rightarrow> SplitResult" where
  "replace_result newBlob ex r =
     r\<lparr>blob := newBlob, dataUrl := ObjectURL newBlob,
       margins := Some (e_margins ex), offset := Some (e_offset ex),
       isSquare := Some (e_isSquare ex), originalRect := e_originalRect ex,
       bgColor := Some (e_bgColor ex)\<rparr>"

definition handleSaveSingle ::
  "blob option \<Rightarrow> extra \<Rightarrow> action \<Rightarrow> app_state \<Rightarrow> error + app_state" where
  "handleSaveSingle newBlob ex act st =
     (case (editingResult st, results st) of
        (Some er, Some rs) \<Rightarrow>
          (case newBlob of
             None \<Rightarrow> Inl TypeError
           | Some nb \<Rightarrow>
               let newResults = map (\<lambda>r. if ident r = ident er then replace_result nb ex r else r) rs
               in Inr (st\<lparr>results := Some newResults,
                          editingResult := (if act = Close then None else editingResult st)\<rparr>))
      | _ \<Rightarrow> Inr st)"

section \<open>Sample inputs\<close>

text \<open>
  Concrete inputs on which the statements below are evaluated: a browser in which every
  call succeeds, the same browser without the GIF encoder module and without a drawing
  context for the resize canvas, a 400 by 400 image and a rectangle in it.
\<close>

definition sample_browser :: browser where
  "sample_browser =
     \<lparr>base_context = True, resize_context = True, toBlob_result = True,
      gifenc = Some \<lparr>has_GIFEncoder = True, has_quantize = True, has_applyPalette = True\<rparr>,
      gifenc_cdn = None, image_data = True, encoder_ok = True\<rparr>"

definition sample_image :: image where
  "sample_image = \<lparr>naturalWidth = 400, naturalHeight = 400\<rparr>"

definition sample_rect :: Rect where
  "sample_rect = \<lparr>rect_x = 0, rect_y = 200, rect_w = 200, rect_h = 100\<rparr>"


definition no_resize_browser :: browser where
  "no_resize_browser = sample_browser\<lparr>resize_context := False\<rparr>"

text \<open>
  The state after an image was loaded, its first snapshot, and the snapshot of the same grid
  with the second row line moved to \<open>25.2\<close>.
\<close>

definition loaded_state :: app_state where
  "loaded_state = handleUpload sample_image initial_state"

definition default_grid :: HistoryState where
  "default_grid =
     \<lparr>rowsH = 4, colsH = 4,
      rowPositionsH = [0, 25, 50, 75, 100], colPositionsH = [0, 25, 50, 75, 100]\<rparr>"

definition moved_grid :: HistoryState where
  "moved_grid =
     \<lparr>rowsH = 4, colsH = 4,
      rowPositionsH = [0, 25.2, 50, 75, 100], colPositionsH = [0, 25, 50, 75, 100]\<rparr>"

text \<open>
  The state after \<open>moved_grid\<close> was pushed and undone and the timer has fired, and a third
  grid, with the second column line at \<open>30\<close>.
\<close>

definition undone_state :: app_state where
  "undone_state = loaded_state\<lparr>history := [default_grid, moved_grid]\<rparr>"

definition other_grid :: HistoryState where
  "other_grid =
     \<lparr>rowsH = 4, colsH = 4,
      rowPositionsH = [0, 25, 50, 75, 100], colPositionsH = [0, 30, 50, 75, 100]\<rparr>"

text \<open>
  A container of 400 by 400 pixels at the origin and a pointer 300 pixels below its top.
\<close>

definition sample_box :: bounds where
  "sample_box = \<lparr>box_left = 0, box_top = 0, box_width = 400, box_height = 400\<rparr>"

definition sample_pointer :: pointer where
  "sample_pointer = \<lparr>clientX = 10, clientY = 300\<rparr>"


definition second_row_line :: line where
  "second_row_line = \<lparr>line_type = Row, line_index = 1\<rparr>"

definition plain_key :: "key \<Rightarrow> key_event" where
  "plain_key k =
     \<lparr>target_is_input = False, ctrlKey = False, metaKey = False, shiftKey = False, pressed = k\<rparr>"


definition second_line_selected :: app_state where
  "second_line_selected = loaded_state\<lparr>selectedLine := Some second_row_line\<rparr>"

text \<open>
  Two results, as \<open>handleSplit\<close> builds them, the state in which the first is being edited,
  and what the modal passes when it saves.
\<close>

definition two_results :: "SplitResult list" where
  "two_results =
     [new_result 0 (PngOf (Canvas 200 100 [])) PNG sample_rect Auto,
      new_result 1 (PngOf (Canvas 100 100 [])) PNG sample_rect Auto]"

definition editing_state :: app_state where
  "editing_state =
     loaded_state\<lparr>results := Some two_results, editingResult := Some (two_results ! 0)\<rparr>"

definition sample_extra :: extra where
  "sample_extra =
     \<lparr>e_margins = no_margins, e_offset = no_offset, e_isSquare = True,
      e_originalRect = sample_rect, e_bgColor = ''white''\<rparr>"

definition sample_blob :: blob where
  "sample_blob = PngOf (Canvas 200 200 [])"

text \<open>
  A two by two grid on the loaded image, a browser that succeeds in every call of a batch,
  and one that gives no drawing context during the second call.
\<close>

definition two_by_two :: app_state where
  "two_by_two =
     loaded_state\<lparr>rows := 2, cols := 2, rowPositions := [0, 50, 100],
                  colPositions := [0, 50, 100]\<rparr>"

definition all_succeed :: "nat \<Rightarrow> browser" where
  "all_succeed k = sample_browser"

definition second_cell_fails :: "nat \<Rightarrow> browser" where
  "second_cell_fails k = (if k = 1 then sample_browser\<lparr>base_context := False\<rparr> else sample_browser)"

section \<open>Rounding to two decimals\<close>

lemma toFixed2_nonneg: "0 \<le> x \<Longrightarrow> toFixed2 x = real_of_int \<lfloor>x * 100 + 1 / 2\<rfloor> / 100"
  by (simp add: toFixed2_def)

lemma toFixed2_mono: "0 \<le> a \<Longrightarrow> a \<le> b \<Longrightarrow> toFixed2 a \<le> toFixed2 b"
proof -
  assume a: "0 \<le> a" "a \<le> b"
  then have "\<lfloor>a * 100 + 1 / 2\<rfloor> \<le> \<lfloor>b * 100 + 1 / 2\<rfloor>"
    by (intro floor_mono) simp
  with a show ?thesis
    by (simp add: toFixed2_nonneg divide_right_mono)
qed

lemma toFixed2_strict: 
  assumes "0 \<le> a" and "a + 1 / 100 \<le> b"
  shows "toFixed2 a < toFixed2 b"
proof -
  have "real_of_int \<lfloor>a * 100 + 1 / 2\<rfloor> \<le> a * 100 + 1 / 2"
    by (rule of_int_floor_le)
  with assms(2) have "real_of_int \<lfloor>a * 100 + 1 / 2\<rfloor> + 1 \<le> b * 100 + 1 / 2"
    by linarith
  then have "real_of_int (\<lfloor>a * 100 + 1 / 2\<rfloor> + 1) \<le> b * 100 + 1 / 2"
    by (simp only: of_int_add of_int_1)
  then have "\<lfloor>a * 100 + 1 / 2\<rfloor> + 1 \<le> \<lfloor>b * 100 + 1 / 2\<rfloor>"
    by (simp only: le_floor_iff)
  then have "\<lfloor>a * 100 + 1 / 2\<rfloor> < \<lfloor>b * 100 + 1 / 2\<rfloor>"
    by simp
  with assms show ?thesis
    by (simp add: toFixed2_nonneg divide_strict_right_mono)
qed

lemma floor_int_half: "\<lfloor>real_of_int m + 1 / 2\<rfloor> = m"
  by linarith

lemma toFixed2_of_int: "toFixed2 (of_int k) = of_int k"
proof -
  have "\<lfloor>real_of_int (k * 100) + 1 / 2\<rfloor> = k * 100"
    by (rule floor_int_half)
  moreover have "\<lfloor>real_of_int (- k * 100) + 1 / 2\<rfloor> = - k * 100"
    by (rule floor_int_half)
  ultimately show ?thesis
    by (simp add: toFixed2_def)
qed

lemma toFixed2_near: "\<bar>toFixed2 x - x\<bar> \<le> 1 / 200"
proof -
  have *: "\<bar>real_of_int \<lfloor>y * 100 + 1 / 2\<rfloor> / 100 - y\<bar> \<le> 1 / 200" for y :: real
  proof -
    have "real_of_int \<lfloor>y * 100 + 1 / 2\<rfloor> \<le> y * 100 + 1 / 2"
      and "y * 100 + 1 / 2 < real_of_int \<lfloor>y * 100 + 1 / 2\<rfloor> + 1"
      by linarith+
    then show ?thesis by linarith
  qed
  show ?thesis
  proof (cases "x < 0")
    case True
    then have "toFixed2 x = - (real_of_int \<lfloor>- x * 100 + 1 / 2\<rfloor> / 100)"
      by (simp add: toFixed2_def)
    with *[of "- x"] show ?thesis by linarith
  next
    case False
    then have "toFixed2 x = real_of_int \<lfloor>x * 100 + 1 / 2\<rfloor> / 100"
      by (simp add: toFixed2_def)
    with *[of x] show ?thesis by linarith
  qed
qed

lemma toFixed2_hundredths: "\<exists>k::int. toFixed2 x = real_of_int k / 100"
proof (cases "x < 0")
  case True
  then have "toFixed2 x = real_of_int (- \<lfloor>- x * 100 + 1 / 2\<rfloor>) / 100"
    by (simp add: toFixed2_def)
  then show ?thesis ..
next
  case False
  then have "toFixed2 x = real_of_int \<lfloor>x * 100 + 1 / 2\<rfloor> / 100"
    by (simp add: toFixed2_def)
  then show ?thesis ..
qed


section \<open>Properties of the grid line generator\<close>

subsection \<open>The loop in closed form\<close>

lemma positions_loop_closed:
  "positions_loop cnt step i positions =
     positions @ map (\<lambda>k. toFixed2 (of_int k * step)) [i..cnt]"
proof (induction cnt step i positions rule: positions_loop.induct)
  case (1 cnt step i positions)
  show ?case
  proof (cases "i \<le> cnt")
    case True
    then have "[i..cnt] = i # [i + 1..cnt]"
      by (simp add: upto_rec1)
    with True "1" show ?thesis
      by (subst positions_loop.simps) simp
  next
    case False
    then show ?thesis
      by (subst positions_loop.simps) simp
  qed
qed

lemma generatePositions_closed:
  "1 \<le> n \<Longrightarrow>
     generatePositions n = map (\<lambda>k. toFixed2 (of_int k * (100 / of_int n))) [0..n]"
  by (simp add: generatePositions_def positions_loop_closed)

lemma length_generatePositions:
  "1 \<le> n \<Longrightarrow> length (generatePositions n) = nat n + 1"
  by (simp add: generatePositions_closed)

lemma nth_generatePositions:
  assumes "1 \<le> n" and "i \<le> nat n"
  shows "generatePositions n ! i = toFixed2 (real i * (100 / of_int n))"
proof -
  from assms have "i < length [0..n]" by simp
  moreover from assms have "[0..n] ! i = int i" by simp
  ultimately show ?thesis
    using assms(1) by (simp add: generatePositions_closed)
qed

lemma hd_generatePositions:
  assumes "1 \<le> n" shows "hd (generatePositions n) = 0"
proof -
  have "generatePositions n \<noteq> []"
    using length_generatePositions[OF assms] by auto
  then have "hd (generatePositions n) = generatePositions n ! 0"
    by (simp add: hd_conv_nth)
  also have "\<dots> = toFixed2 (real_of_int 0)"
    using nth_generatePositions[OF assms, of 0] by simp
  finally show ?thesis
    using toFixed2_of_int[of 0] by simp
qed

lemma last_generatePositions: 
  assumes "1 \<le> n" shows "last (generatePositions n) = 100"
proof -
  have "generatePositions n \<noteq> []"
    using length_generatePositions[OF assms] by auto
  then have "last (generatePositions n) = generatePositions n ! nat n"
    using length_generatePositions[OF assms] by (simp add: last_conv_nth)
  also have "\<dots> = toFixed2 (real (nat n) * (100 / real_of_int n))"
    using assms by (intro nth_generatePositions) simp_all
  also have "real (nat n) * (100 / real_of_int n) = real_of_int 100"
    using assms by simp
  finally show ?thesis
    using toFixed2_of_int[of 100] by simp
qed

lemma sorted_generatePositions: 
  assumes "1 \<le> n" shows "sorted (generatePositions n)"
proof -
  have "generatePositions n ! i \<le> generatePositions n ! j"
    if "i \<le> j" "j < length (generatePositions n)" for i j
  proof -
    from that assms have ij: "i \<le> nat n" "j \<le> nat n"
      by (simp_all add: length_generatePositions)
    have "real i * (100 / real_of_int n) \<le> real j * (100 / real_of_int n)"
      using that(1) assms by (intro mult_right_mono) simp_all
    moreover have "0 \<le> real i * (100 / real_of_int n)"
      using assms by simp
    ultimately show ?thesis
      using assms ij by (simp add: nth_generatePositions toFixed2_mono)
  qed
  then show ?thesis
    by (simp add: sorted_iff_nth_mono)
qed

lemma strict_generatePositions:
  assumes "1 \<le> n" and "n \<le> 10000" shows "sorted_wrt (<) (generatePositions n)"
proof -
  have "generatePositions n ! i < generatePositions n ! j"
    if "i < j" "j < length (generatePositions n)" for i j
  proof -
    from that assms have ij: "i \<le> nat n" "j \<le> nat n"
      by (simp_all add: length_generatePositions)
    from that(1) have "real i + 1 \<le> real j"
      by linarith
    then have "(real i + 1) * (100 / real_of_int n) \<le> real j * (100 / real_of_int n)"
      using assms by (intro mult_right_mono) simp_all
    moreover have "1 / 100 \<le> 100 / real_of_int n"
      using assms by (simp add: field_simps)
    moreover have "(real i + 1) * (100 / real_of_int n)
        = real i * (100 / real_of_int n) + 100 / real_of_int n"
      by (simp only: distrib_right mult_1)
    ultimately have "real i * (100 / real_of_int n) + 1 / 100 \<le> real j * (100 / real_of_int n)"
      by linarith
    moreover have "0 \<le> real i * (100 / real_of_int n)"
      using assms by simp
    ultimately show ?thesis
      using assms ij by (simp add: nth_generatePositions toFixed2_strict)
  qed
  then show ?thesis
    by (simp add: sorted_wrt_iff_nth_less)
qed

lemma generatePositions_4: "generatePositions 4 = [0, 25, 50, 75, 100]"
proof -
  have "[0..4::int] = [0, 1, 2, 3, 4]"
    by code_simp
  then show ?thesis
    by (simp add: generatePositions_closed toFixed2_def)
qed

subsection \<open>The generated lines\<close>

text \<open>
  C3, as the source has it. For every integer \<open>n \<ge> 1\<close>, \<open>generatePositions n\<close> returns
  exactly \<open>n + 1\<close> values in non-decreasing order, the first \<open>0\<close> and the last \<open>100\<close>; each is
  a multiple of \<open>0.01\<close> within \<open>0.005\<close> of the evenly spaced \<open>100 i / n\<close>; the values are
  strictly increasing when \<open>n \<le> 10000\<close>; and \<open>generatePositions 4\<close> is
  \<open>[0, 25, 50, 75, 100]\<close>.
\<close>

theorem generatePositions_values:
  assumes "1 \<le> n"
  shows "length (generatePositions n) = nat n + 1
       \<and> sorted (generatePositions n)
       \<and> (n \<le> 10000 \<longrightarrow> sorted_wrt (<) (generatePositions n))
       \<and> hd (generatePositions n) = 0
       \<and> last (generatePositions n) = 100
       \<and> (\<forall>i\<le>nat n. (\<exists>k::int. generatePositions n ! i = real_of_int k / 100)
                     \<and> \<bar>generatePositions n ! i - real i * (100 / real_of_int n)\<bar> \<le> 1 / 200)
       \<and> generatePositions 4 = [0, 25, 50, 75, 100]"
proof -
  have "(\<exists>k::int. generatePositions n ! i = real_of_int k / 100)
      \<and> \<bar>generatePositions n ! i - real i * (100 / real_of_int n)\<bar> \<le> 1 / 200"
    if "i \<le> nat n" for i
    unfolding nth_generatePositions[OF assms that]
    by (intro conjI toFixed2_hundredths toFixed2_near)
  with assms show ?thesis
    by (simp add: length_generatePositions sorted_generatePositions strict_generatePositions
        hd_generatePositions last_generatePositions generatePositions_4)
qed

theorem generatePositions_values_witness:
  "(1::int) \<le> 4 \<and> (4::int) \<le> 10000
   \<and> length (generatePositions 4) = 5
   \<and> sorted_wrt (<) (generatePositions 4)
   \<and> hd (generatePositions 4) = 0 \<and> last (generatePositions 4) = 100"
  using generatePositions_values [of 4] by simp

text \<open>
  With thirty thousand cells the second line is \<open>0.0033\<dots>\<close>, which rounds to \<open>0\<close> like the
  first: the values are not strictly increasing.
\<close>

theorem generatePositions_not_strict:
  "\<not> (length (generatePositions 30000) = 30001 \<and> sorted_wrt (<) (generatePositions 30000))"
proof
  assume "length (generatePositions 30000) = 30001 \<and> sorted_wrt (<) (generatePositions 30000)"
  then have "generatePositions 30000 ! 0 < generatePositions 30000 ! 1"
    by (simp add: sorted_wrt_iff_nth_less)
  moreover have "generatePositions 30000 ! 0 = 0"
    using nth_generatePositions[of 30000 0] by (simp add: toFixed2_def)
  moreover have "generatePositions 30000 ! 1 = 0"
    using nth_generatePositions[of 30000 1] by (simp add: toFixed2_def)
  ultimately show False by simp
qed

section \<open>Properties of the cell rectangles\<close>

lemma set_cell_rects:
  "set (cell_rects sortedRows sortedCols iw ih px py) =
     (\<Union>r\<in>{0..<length sortedRows - 1}. \<Union>c\<in>{0..<length sortedCols - 1}.
        {cellRect sortedRows sortedCols r c iw ih px py})"
  by (auto simp: cell_rects_def)

lemma cellRect_floor:
  "1 \<le> rect_w (cellRect sortedRows sortedCols r c iw ih px py)
   \<and> 1 \<le> rect_h (cellRect sortedRows sortedCols r c iw ih px py)"
  by (simp add: cellRect_def Let_def)

text \<open>
  C4. For any row and column line arrays, any cell index \<open>(r, c)\<close> inside them, any image
  size and any padding, the rectangle derived for the cell has width at least \<open>1\<close> and height
  at least \<open>1\<close>; so has every rectangle the loops of \<open>handleSplit\<close> produce.
\<close>

theorem cellRect_at_least_one_pixel:
  assumes "r + 1 < length sortedRows" and "c + 1 < length sortedCols"
  shows "1 \<le> rect_w (cellRect sortedRows sortedCols r c iw ih px py)
       \<and> 1 \<le> rect_h (cellRect sortedRows sortedCols r c iw ih px py)
       \<and> cellRect sortedRows sortedCols r c iw ih px py
           \<in> set (cell_rects sortedRows sortedCols iw ih px py)
       \<and> (\<forall>rect \<in> set (cell_rects sortedRows sortedCols iw ih px py).
             1 \<le> rect_w rect \<and> 1 \<le> rect_h rect)"
proof -
  from assms have "r \<in> {0..<length sortedRows - 1}" "c \<in> {0..<length sortedCols - 1}"
    by simp_all
  then have "cellRect sortedRows sortedCols r c iw ih px py
      \<in> set (cell_rects sortedRows sortedCols iw ih px py)"
    unfolding set_cell_rects by blast
  moreover have "1 \<le> rect_w rect \<and> 1 \<le> rect_h rect"
    if "rect \<in> set (cell_rects sortedRows sortedCols iw ih px py)" for rect
  proof -
    from that obtain r' c' where "rect = cellRect sortedRows sortedCols r' c' iw ih px py"
      unfolding set_cell_rects by blast
    then show ?thesis
      by (simp only: cellRect_floor)
  qed
  ultimately show ?thesis
    using cellRect_floor by blast
qed

theorem cellRect_at_least_one_pixel_witness:
  "0 + 1 < length [0, 50, 100 :: real]
   \<and> rect_w (cellRect [0, 50, 100] [0, 50, 100] 0 0 400 400 150 150) = 1
   \<and> rect_h (cellRect [0, 50, 100] [0, 50, 100] 0 0 400 400 150 150) = 1
   \<and> cellRect [0, 50, 100] [0, 50, 100] 0 0 400 400 150 150
       \<in> set (cell_rects [0, 50, 100] [0, 50, 100] 400 400 150 150)"
  using cellRect_at_least_one_pixel [of 0 "[0, 50, 100]" 0 "[0, 50, 100]" 400 400 150 150]
  by (simp add: cellRect_def)

section \<open>Properties of the compositor\<close>

lemma plain_canvas:
  "base_canvas img rect no_margins no_offset False bg =
     Canvas (rect_w rect) (rect_h rect)
       [background bg (rect_w rect) (rect_h rect),
        DrawImage img (rect_x rect) (rect_y rect) (rect_w rect) (rect_h rect)
          0 0 (rect_w rect) (rect_h rect)]"
  by (simp add: base_canvas_def canvasWidth_def canvasHeight_def no_margins_def no_offset_def Let_def)

lemma final_canvas_Auto: "final_canvas env cv bg Auto = cv"
  by (simp add: final_canvas_def)

lemma generateImageBlob_PNG:
  "base_context env \<Longrightarrow> toBlob_result env \<Longrightarrow>
     generateImageBlob v env img rect mg off sq bg osz PNG =
       (Inr (Some (PngOf (final_canvas env (base_canvas img rect mg off sq bg) bg osz))), [])"
  by (simp add: generateImageBlob_def)

lemma generateImageBlob_GIF_ok:
  "base_context env \<Longrightarrow> gif_outcome v env = None \<Longrightarrow>
     generateImageBlob v env img rect mg off sq bg osz GIF =
       (Inr (Some (GifOf (final_canvas env (base_canvas img rect mg off sq bg) bg osz)
                     (if bg \<noteq> ''white'' then Some 0 else None))), [])"
  by (simp add: generateImageBlob_def)

lemma generateImageBlob_GIF_fallback:
  "base_context env \<Longrightarrow> gif_outcome v env = Some e \<Longrightarrow>
     generateImageBlob v env img rect mg off sq bg osz GIF =
       (Inr (if toBlob_result env
             then Some (PngOf (final_canvas env (base_canvas img rect mg off sq bg) bg osz))
             else None),
        [''GIF generation failed, falling back to PNG.''])"
  by (simp add: generateImageBlob_def)

lemma generateImageBlob_no_context:
  "\<not> base_context env \<Longrightarrow>
     generateImageBlob v env img rect mg off sq bg osz fmt = (Inl ContextCreationFailed, [])"
  by (simp add: generateImageBlob_def)

lemma generateImageBlob_encodes_final:
  assumes "base_context env" and "toBlob_result env"
  shows "\<exists>b al. generateImageBlob v env img rect mg off sq bg osz fmt = (Inr (Some b), al)
           \<and> canvas_of b = final_canvas env (base_canvas img rect mg off sq bg) bg osz
           \<and> (fmt = PNG \<longrightarrow> al = [])"
proof (cases fmt)
  case PNG
  with assms show ?thesis by (simp add: generateImageBlob_PNG)
next
  case GIF
  show ?thesis
  proof (cases "gif_outcome v env")
    case None
    with GIF assms show ?thesis by (simp add: generateImageBlob_GIF_ok)
  next
    case (Some e)
    with GIF assms show ?thesis by (simp add: generateImageBlob_GIF_fallback)
  qed
qed



lemma gif_outcome_None_iff:
  "gif_outcome AppTsx env = None \<longleftrightarrow>
     (\<exists>m. gifenc env = Some m \<and> has_GIFEncoder m \<and> has_quantize m \<and> has_applyPalette m)
     \<and> image_data env \<and> encoder_ok env"
  by (auto simp: encode_with_def split: option.splits)



lemma final_canvas_blank:
  assumes "\<not> resize_context env" and "cwidth cv \<noteq> of_int n \<or> cheight cv \<noteq> of_int n"
  shows "final_canvas env cv bg (Px n) = Canvas (of_int n) (of_int n) []"
  using assms by (auto simp: final_canvas_def)

lemma cwidth_base_canvas: "cwidth (base_canvas img rect mg off sq bg) = canvasWidth rect mg sq"
  by (simp add: base_canvas_def Let_def)

lemma cheight_base_canvas: "cheight (base_canvas img rect mg off sq bg) = canvasHeight rect mg sq"
  by (simp add: base_canvas_def Let_def)

text \<open>
  C10. When \<open>outputSize\<close> is an integer \<open>n\<close> other than the width or the height of the base
  canvas and the resize canvas gets no drawing context, \<open>generateImageBlob\<close> raises no error:
  it returns an encoding of the blank \<open>n\<close> by \<open>n\<close> canvas (for \<open>png\<close> without any message),
  whereas without a context for the base canvas the call fails with "Context creation failed".
\<close>

theorem resize_context_failure_not_raised:
  assumes "base_context env" and "\<not> resize_context env" and "toBlob_result env"
    and "canvasWidth rect mg sq \<noteq> of_int n \<or> canvasHeight rect mg sq \<noteq> of_int n"
  shows "(\<exists>b al. generateImageBlob v env img rect mg off sq bg (Px n) fmt = (Inr (Some b), al)
            \<and> canvas_of b = Canvas (of_int n) (of_int n) []
            \<and> (fmt = PNG \<longrightarrow> al = []))
       \<and> generateImageBlob v (env\<lparr>base_context := False\<rparr>) img rect mg off sq bg (Px n) fmt
           = (Inl ContextCreationFailed, [])"
proof -
  have "final_canvas env (base_canvas img rect mg off sq bg) bg (Px n)
          = Canvas (of_int n) (of_int n) []"
    using assms(2,4) by (intro final_canvas_blank) (simp_all add: cwidth_base_canvas cheight_base_canvas)
  with generateImageBlob_encodes_final [OF assms(1,3), of v img rect mg off sq bg "Px n" fmt]
  show ?thesis
    by (simp add: generateImageBlob_no_context)
qed

theorem resize_context_failure_not_raised_witness:
  "base_context no_resize_browser \<and> \<not> resize_context no_resize_browser
   \<and> toBlob_result no_resize_browser
   \<and> canvasWidth sample_rect no_margins False \<noteq> of_int 128
   \<and> generateImageBlob Part000 no_resize_browser sample_image sample_rect no_margins no_offset
        False ''transparent'' (Px 128) PNG
       = (Inr (Some (PngOf (Canvas 128 128 []))), [])
   \<and> generateImageBlob Part000 (no_resize_browser\<lparr>base_context := False\<rparr>) sample_image
        sample_rect no_margins no_offset False ''transparent'' (Px 128) PNG
       = (Inl ContextCreationFailed, [])"
proof -
  have h: "base_context no_resize_browser" "\<not> resize_context no_resize_browser"
    "toBlob_result no_resize_browser"
    "canvasWidth sample_rect no_margins False \<noteq> of_int 128
     \<or> canvasHeight sample_rect no_margins False \<noteq> of_int 128"
    by (simp_all add: no_resize_browser_def sample_browser_def canvasWidth_def sample_rect_def
        no_margins_def)
  have "canvasWidth sample_rect no_margins False \<noteq> of_int 128"
    by (simp add: canvasWidth_def sample_rect_def no_margins_def)
  with h resize_context_failure_not_raised [OF h, of Part000 sample_image no_offset
      "''transparent''" PNG]
  show ?thesis
    by (auto simp: generateImageBlob_PNG)
qed

section \<open>Properties of the grid history\<close>

lemma loaded_state_eq:
  "loaded_state =
     initial_state\<lparr>imageElement := Some sample_image, history := [default_grid],
                   historyIndex := 0\<rparr>"
  by (simp add: loaded_state_def handleUpload_def generatePositions_4 initial_state_def
      default_grid_def Let_def)

lemma nat_int_pred: "nat (int n - 1) = n - 1"
  by linarith

lemma js_nth_last:
  "js_nth xs (int (length xs) - 1) = (if xs = [] then None else Some (last xs))"
  by (simp add: js_nth_def last_conv_nth nat_int_pred)

lemma slice0_pointer:
  assumes "0 \<le> i" and "i < int (length xs)"
  shows "slice0 xs (i + 1) = take (nat i + 1) xs"
    and "slice0 xs (i + 1) \<noteq> []"
    and "js_nth (slice0 xs (i + 1)) (int (length (slice0 xs (i + 1))) - 1) = Some (xs ! nat i)"
proof -
  from assms show eq: "slice0 xs (i + 1) = take (nat i + 1) xs"
    by (simp add: slice0_def nat_add_distrib)
  from assms have len: "length (take (nat i + 1) xs) = nat i + 1"
    by simp
  then show "slice0 xs (i + 1) \<noteq> []"
    unfolding eq by (metis Suc_eq_plus1 length_0_conv nat.distinct(1))
  from len assms show
    "js_nth (slice0 xs (i + 1)) (int (length (slice0 xs (i + 1))) - 1) = Some (xs ! nat i)"
    unfolding eq by (simp add: js_nth_def)
qed

text \<open>While the flag of an undo or redo is up, a push is ignored.\<close>

lemma addToHistory_during_undo: "isUndoRedo st \<Longrightarrow> addToHistory s st = st"
  by (simp add: addToHistory_def)

lemma addToHistory_same:
  assumes "\<not> isUndoRedo st" and "0 \<le> historyIndex st"
    and "historyIndex st < int (length (history st))"
    and "s = history st ! nat (historyIndex st)"
  shows "addToHistory s st = st\<lparr>history := take (nat (historyIndex st) + 1) (history st)\<rparr>"
  using assms slice0_pointer[OF assms(2,3)]
  by (simp add: addToHistory_def Let_def)

lemma addToHistory_new:
  assumes "\<not> isUndoRedo st" and "0 \<le> historyIndex st"
    and "historyIndex st < int (length (history st))"
    and "s \<noteq> history st ! nat (historyIndex st)"
  shows "addToHistory s st =
           st\<lparr>history := take (nat (historyIndex st) + 1) (history st) @ [s],
              historyIndex := historyIndex st + 1\<rparr>"
proof -
  from assms(2,3) have "int (length (take (nat (historyIndex st) + 1) (history st)))
      = historyIndex st + 1"
    by simp
  with assms slice0_pointer[OF assms(2,3)] show ?thesis
    by (simp add: addToHistory_def Let_def)
qed

lemma addToHistory_twice:
  assumes "- 1 \<le> historyIndex st"
  shows "addToHistory s (addToHistory s st) = addToHistory s st"
proof (cases "isUndoRedo st")
  case True
  then show ?thesis by (simp add: addToHistory_def)
next
  case False
  define current where "current = slice0 (history st) (historyIndex st + 1)"
  have cur: "current = take (nat (historyIndex st + 1)) (history st)"
    using assms by (simp add: current_def slice0_def)
  show ?thesis
  proof (cases "current \<noteq> [] \<and> last current = s")
    case True
    then have nth: "js_nth current (int (length current) - 1) = Some s"
      by (simp add: js_nth_last)
    with False have one: "addToHistory s st = st\<lparr>history := current\<rparr>"
      by (simp add: addToHistory_def Let_def current_def)
    have "slice0 current (historyIndex st + 1) = current"
      using assms by (simp add: slice0_def cur)
    with nth False show ?thesis
      unfolding one by (simp add: addToHistory_def Let_def)
  next
    case False2: False
    then have "js_nth current (int (length current) - 1) \<noteq> Some s"
      by (auto simp: js_nth_last)
    with False have one: "addToHistory s st =
        st\<lparr>history := current @ [s], historyIndex := int (length (current @ [s])) - 1\<rparr>"
      by (auto simp: addToHistory_def Let_def current_def split: option.splits)
    have "slice0 (current @ [s]) (int (length (current @ [s])) - 1 + 1) = current @ [s]"
      by (simp add: slice0_def)
    moreover have "js_nth (current @ [s]) (int (length (current @ [s])) - 1) = Some s"
      by (simp add: js_nth_def)
    ultimately show ?thesis
      using False unfolding one by (simp add: addToHistory_def Let_def)
  qed
qed

lemma undo_after_push:
  assumes "\<not> isUndoRedo st" and "0 \<le> historyIndex st"
    and "historyIndex st < int (length (history st))"
    and "s \<noteq> history st ! nat (historyIndex st)"
  shows "handleUndo (addToHistory s st) =
           Inr ((apply_snapshot (history st ! nat (historyIndex st))
                  ((addToHistory s st)\<lparr>isUndoRedo := True\<rparr>))\<lparr>historyIndex := historyIndex st\<rparr>)"
proof -
  have "js_nth (take (nat (historyIndex st) + 1) (history st) @ [s]) (historyIndex st)
      = Some (history st ! nat (historyIndex st))"
    using assms(2,3) by (simp add: js_nth_def nth_append)
  then show ?thesis
    using assms(2) by (simp add: addToHistory_new[OF assms] handleUndo_def)
qed


lemma redo_after_undo:
  assumes "\<not> isUndoRedo st" and "0 \<le> historyIndex st"
    and "historyIndex st < int (length (history st))"
    and "s \<noteq> history st ! nat (historyIndex st)"
    and "handleUndo (addToHistory s st) = Inr st'"
  shows "handleRedo st' =
           Inr ((apply_snapshot s (st'\<lparr>isUndoRedo := True\<rparr>))
                  \<lparr>historyIndex := historyIndex st + 1\<rparr>)"
proof -
  from assms(5) have st': "st' = (apply_snapshot (history st ! nat (historyIndex st))
      ((addToHistory s st)\<lparr>isUndoRedo := True\<rparr>))\<lparr>historyIndex := historyIndex st\<rparr>"
    by (simp add: undo_after_push[OF assms(1-4)])
  have h: "history st' = take (nat (historyIndex st) + 1) (history st) @ [s]"
    and i: "historyIndex st' = historyIndex st"
    by (simp_all add: st' apply_snapshot_def addToHistory_new[OF assms(1-4)])
  have len: "int (length (history st')) = historyIndex st + 2"
    using assms(2,3) by (simp add: h)
  have "js_nth (history st') (historyIndex st + 1) = Some s"
    using assms(2,3) by (simp add: h js_nth_def nth_append nat_add_distrib)
  then show ?thesis
    using len by (simp add: handleRedo_def i)
qed

lemma undone_state_reached:
  "map_sum id timer_fired (handleUndo (addToHistory moved_grid loaded_state)) = Inr undone_state"
proof -
  have h: "\<not> isUndoRedo loaded_state" "0 \<le> historyIndex loaded_state"
    "historyIndex loaded_state < int (length (history loaded_state))"
    "moved_grid \<noteq> history loaded_state ! nat (historyIndex loaded_state)"
    by (simp_all add: loaded_state_eq initial_state_def moved_grid_def default_grid_def)
  show ?thesis
    unfolding undo_after_push[OF h]
    by (simp add: addToHistory_new[OF h] timer_fired_def apply_snapshot_def undone_state_def)
       (simp add: loaded_state_eq initial_state_def default_grid_def)
qed

text \<open>
  C5. In a state whose history pointer addresses a snapshot (as it does once an image is
  loaded) and outside an undo or redo: pushing a state equal to the snapshot at the pointer
  adds no entry (the history keeps the entries up to the pointer, and the pointer stays);
  pushing the same state twice in a row is the same as pushing it once; pushing a different
  state drops the entries beyond the pointer, appends the state and advances the pointer to
  it; \<open>handleUndo\<close> after such a push puts the grid back to the snapshot that was at the
  pointer before the push; and \<open>handleRedo\<close> after that undo puts the grid to the pushed state
  exactly.
\<close>

theorem history_push_undo_redo:
  assumes "\<not> isUndoRedo st" and "0 \<le> historyIndex st"
    and "historyIndex st < int (length (history st))"
  shows "(s = history st ! nat (historyIndex st) \<longrightarrow>
            history (addToHistory s st) = take (nat (historyIndex st) + 1) (history st)
          \<and> historyIndex (addToHistory s st) = historyIndex st)
       \<and> addToHistory s (addToHistory s st) = addToHistory s st
       \<and> (s \<noteq> history st ! nat (historyIndex st) \<longrightarrow>
            history (addToHistory s st) = take (nat (historyIndex st) + 1) (history st) @ [s]
          \<and> historyIndex (addToHistory s st) = historyIndex st + 1
          \<and> (\<exists>st'. handleUndo (addToHistory s st) = Inr st'
                 \<and> snapshot st' = history st ! nat (historyIndex st)
                 \<and> historyIndex st' = historyIndex st
                 \<and> history st' = history (addToHistory s st)
                 \<and> (\<exists>st''. handleRedo st' = Inr st''
                        \<and> snapshot st'' = s
                        \<and> historyIndex st'' = historyIndex st + 1
                        \<and> history st'' = history (addToHistory s st))))"
proof (intro conjI impI)
  assume same: "s = history st ! nat (historyIndex st)"
  show "history (addToHistory s st) = take (nat (historyIndex st) + 1) (history st)"
    and "historyIndex (addToHistory s st) = historyIndex st"
    by (simp_all add: addToHistory_same[OF assms same])
next
  show "addToHistory s (addToHistory s st) = addToHistory s st"
    using assms(2) by (intro addToHistory_twice) simp
next
  assume new: "s \<noteq> history st ! nat (historyIndex st)"
  note push = addToHistory_new[OF assms new]
  show "history (addToHistory s st) = take (nat (historyIndex st) + 1) (history st) @ [s]"
    and "historyIndex (addToHistory s st) = historyIndex st + 1"
    by (simp_all add: push)
  define st' where "st' = (apply_snapshot (history st ! nat (historyIndex st))
      ((addToHistory s st)\<lparr>isUndoRedo := True\<rparr>))\<lparr>historyIndex := historyIndex st\<rparr>"
  have undo: "handleUndo (addToHistory s st) = Inr st'"
    by (simp add: undo_after_push[OF assms new] st'_def)
  define st'' where "st'' = (apply_snapshot s (st'\<lparr>isUndoRedo := True\<rparr>))
      \<lparr>historyIndex := historyIndex st + 1\<rparr>"
  have redo: "handleRedo st' = Inr st''"
    unfolding st''_def by (rule redo_after_undo[OF assms new undo])
  have "snapshot st' = history st ! nat (historyIndex st)"
    and "historyIndex st' = historyIndex st"
    and "history st' = history (addToHistory s st)"
    and "snapshot st'' = s"
    and "historyIndex st'' = historyIndex st + 1"
    and "history st'' = history (addToHistory s st)"
    by (simp_all add: st''_def st'_def snapshot_def apply_snapshot_def)
  with undo redo
  show "\<exists>st'. handleUndo (addToHistory s st) = Inr st'
           \<and> snapshot st' = history st ! nat (historyIndex st)
           \<and> historyIndex st' = historyIndex st
           \<and> history st' = history (addToHistory s st)
           \<and> (\<exists>st''. handleRedo st' = Inr st''
                  \<and> snapshot st'' = s
                  \<and> historyIndex st'' = historyIndex st + 1
                  \<and> history st'' = history (addToHistory s st))"
    by simp
qed

theorem history_push_undo_redo_witness:
  "\<not> isUndoRedo loaded_state \<and> 0 \<le> historyIndex loaded_state
   \<and> historyIndex loaded_state < int (length (history loaded_state))
   \<and> default_grid = history loaded_state ! nat (historyIndex loaded_state)
   \<and> history (addToHistory default_grid loaded_state) = [default_grid]
   \<and> moved_grid \<noteq> history loaded_state ! nat (historyIndex loaded_state)
   \<and> history (addToHistory moved_grid loaded_state) = [default_grid, moved_grid]
   \<and> historyIndex (addToHistory moved_grid loaded_state) = 1
   \<and> (\<exists>st'. handleUndo (addToHistory moved_grid loaded_state) = Inr st'
          \<and> snapshot st' = default_grid
          \<and> (\<exists>st''. handleRedo st' = Inr st'' \<and> snapshot st'' = moved_grid))
   \<and> history undone_state = [default_grid, moved_grid] \<and> historyIndex undone_state = 0
   \<and> history (addToHistory other_grid undone_state) = [default_grid, other_grid]"
proof -
  have h: "\<not> isUndoRedo loaded_state" "0 \<le> historyIndex loaded_state"
    "historyIndex loaded_state < int (length (history loaded_state))"
    by (simp_all add: loaded_state_eq initial_state_def)
  have top: "history loaded_state ! nat (historyIndex loaded_state) = default_grid"
    "history loaded_state = [default_grid]" "historyIndex loaded_state = 0"
    by (simp_all add: loaded_state_eq initial_state_def)
  have ne: "moved_grid \<noteq> default_grid"
    by (simp add: moved_grid_def default_grid_def)
  have u: "\<not> isUndoRedo undone_state" "0 \<le> historyIndex undone_state"
    "historyIndex undone_state < int (length (history undone_state))"
    by (simp_all add: undone_state_def loaded_state_eq initial_state_def)
  have utop: "history undone_state = [default_grid, moved_grid]" "historyIndex undone_state = 0"
    by (simp_all add: undone_state_def loaded_state_eq initial_state_def)
  have une: "other_grid \<noteq> default_grid"
    by (simp add: other_grid_def default_grid_def)
  from history_push_undo_redo [OF u, of other_grid] utop une
  have "history (addToHistory other_grid undone_state) = [default_grid, other_grid]"
    by simp
  with history_push_undo_redo [OF h, of default_grid] history_push_undo_redo [OF h, of moved_grid]
    h top ne utop
  show ?thesis
    by auto
qed

section \<open>Properties of line moves\<close>



lemma currentArr_updateLinePosition:
  "currentArr type (updateLinePosition type index newPct st) =
     sort ((currentArr type st)[index := toFixed2 (max 0 (min 100 newPct))])"
  by (cases type) (simp_all add: updateLinePosition_def currentArr_def Let_def)



lemma other_axis_handleMove:
  "type' \<noteq> type \<Longrightarrow> currentArr type' (handleMove v type index box ev st) = currentArr type' st"
  by (cases v; cases type; cases type')
     (simp_all add: updateLinePosition_def currentArr_def Let_def)





subsection \<open>Nudging a line\<close>

lemma currentArr_handleNudge:
  "currentArr (line_type sel) (handleNudge dir fast sel seen st) =
     sort ((currentArr (line_type sel) st)
       [line_index sel := toFixed2 (max 0 (min 100
          (case line_type sel of
             Row \<Rightarrow> (if dir = Up then currentArr Row seen ! line_index sel - (if fast then 2 else 1 / 5)
                      else if dir = Down then currentArr Row seen ! line_index sel + (if fast then 2 else 1 / 5)
                      else currentArr Row seen ! line_index sel)
           | Col \<Rightarrow> (if dir = Left then currentArr Col seen ! line_index sel - (if fast then 2 else 1 / 5)
                      else if dir = Right then currentArr Col seen ! line_index sel + (if fast then 2 else 1 / 5)
                      else currentArr Col seen ! line_index sel))))])"
  by (cases "line_type sel")
     (simp_all add: handleNudge_def Let_def currentArr_updateLinePosition)




lemma handleKeyDown_Part000_arrow:
  assumes "\<not> target_is_input e" and "\<not> (ctrlKey e \<or> metaKey e)"
    and "selectedLine st = Some sel" and "dirMap (pressed e) = Some dir"
  shows "handleKeyDown Part000 e seen st = Inr (handleNudge dir (shiftKey e) sel seen st)"
proof -
  from assms(4) have "is_arrow (pressed e)"
    by (cases "pressed e") (simp_all add: is_arrow_def)
  with assms show ?thesis
    by (simp add: handleKeyDown_def)
qed









lemma history_addToHistory:
  assumes "\<not> isUndoRedo st" and "0 \<le> historyIndex st"
    and "historyIndex st < int (length (history st))"
  shows "history (addToHistory s st) =
           (if s = history st ! nat (historyIndex st)
            then take (nat (historyIndex st) + 1) (history st)
            else take (nat (historyIndex st) + 1) (history st) @ [s])"
  using addToHistory_same[OF assms, of s] addToHistory_new[OF assms, of s]
  by (cases "s = history st ! nat (historyIndex st)") simp_all








lemma loaded_history:
  "history loaded_state = [default_grid]" "historyIndex loaded_state = 0"
  "\<not> isUndoRedo loaded_state" "snapshot loaded_state = default_grid"
  by (simp_all add: loaded_state_eq initial_state_def snapshot_def default_grid_def)

lemma toFixed2_25_2: "toFixed2 (126 / 5) = 126 / 5"
  by (simp add: toFixed2_def)






text \<open>
  A second \<open>ArrowDown\<close> through the listener registered before the first (nothing the first
  press changes registers it again) writes \<open>25.2\<close> once more and moves nothing.
\<close>

lemma second_key_press_repeats:
  "handleKeyDown Part000 (plain_key ArrowDown) second_line_selected
       (handleNudge Down False second_row_line second_line_selected second_line_selected)
     = Inr (handleNudge Down False second_row_line second_line_selected second_line_selected)"
proof -
  define st where "st = handleNudge Down False second_row_line second_line_selected
    second_line_selected"
  have sel: "selectedLine st = Some second_row_line"
    by (simp add: st_def handleNudge_def Let_def updateLinePosition_def second_row_line_def
        second_line_selected_def)
  have rows: "rowPositions st = [0, 25.2, 50, 75, 100]"
    using currentArr_handleNudge[of second_row_line Down False second_line_selected
        second_line_selected]
    by (simp add: st_def second_row_line_def toFixed2_25_2 second_line_selected_def
        loaded_state_eq initial_state_def currentArr_def)
  have "handleKeyDown Part000 (plain_key ArrowDown) second_line_selected st
      = Inr (handleNudge Down False second_row_line second_line_selected st)"
    using handleKeyDown_Part000_arrow[of "plain_key ArrowDown" st second_row_line Down
        second_line_selected]
    by (simp add: plain_key_def sel)
  also have "handleNudge Down False second_row_line second_line_selected st = st"
    by (simp add: handleNudge_def Let_def updateLinePosition_def second_row_line_def rows
        toFixed2_25_2 currentArr_def second_line_selected_def loaded_state_eq initial_state_def)
  finally show ?thesis
    by (simp add: st_def)
qed

text \<open>The drag of \<^verbatim>\<open>part_000\<close>, by contrast, commits the moved grid when the pointer is released.\<close>

lemma handleUp_commits:
  "history (handleUp (handleMove Part000 Row 1 sample_box sample_pointer loaded_state))
     = [default_grid,
        \<lparr>rowsH = 4, colsH = 4, rowPositionsH = [0, 50, 75, 75, 100],
         colPositionsH = [0, 25, 50, 75, 100]\<rparr>]"
proof -
  define st where "st = handleMove Part000 Row 1 sample_box sample_pointer loaded_state"
  have "toFixed2 75 = 75"
    using toFixed2_of_int[of 75] by simp
  then have st: "st = loaded_state\<lparr>rowPositions := [0, 50, 75, 75, 100]\<rparr>"
    by (simp add: st_def updateLinePosition_def drag_pct_def sample_box_def sample_pointer_def
        loaded_state_eq initial_state_def)
  have inv: "\<not> isUndoRedo st" "0 \<le> historyIndex st" "historyIndex st < int (length (history st))"
    by (simp_all add: st loaded_history)
  have "snapshot st = \<lparr>rowsH = 4, colsH = 4, rowPositionsH = [0, 50, 75, 75, 100],
         colPositionsH = [0, 25, 50, 75, 100]\<rparr>"
    by (simp add: st snapshot_def loaded_state_eq initial_state_def)
  with history_addToHistory[OF inv, of "snapshot st"] show ?thesis
    unfolding st_def[symmetric] handleUp_def
    by (simp add: st loaded_history default_grid_def)
qed

section \<open>Properties of the fine-tune save\<close>

lemma ident_replace_result: "ident (replace_result nb ex r) = ident r"
  by (simp add: replace_result_def)

lemma handleSaveSingle_saved:
  assumes "editingResult st = Some er" and "results st = Some rs"
  shows "handleSaveSingle (Some nb) ex act st =
           Inr (st\<lparr>results := Some (map (\<lambda>r. if ident r = ident er then replace_result nb ex r
                                               else r) rs),
                    editingResult := (if act = Close then None else Some er)\<rparr>)"
  using assms by (simp add: handleSaveSingle_def)

lemma handleSaveSingle_nothing:
  "editingResult st = None \<or> results st = None \<Longrightarrow> handleSaveSingle newBlob ex act st = Inr st"
  by (auto simp: handleSaveSingle_def split: option.splits)

text \<open>
  C9. For every fine-tune save (a result is being edited, a result set exists, the blob is
  not \<open>null\<close>): the result set keeps its length and the identifier at every position; every
  result whose \<open>id\<close> differs from the \<open>id\<close> of the edited result is unchanged in all its
  fields; a result with that \<open>id\<close> gets the new blob, URL and layout fields; and of the state
  only \<open>results\<close> and \<open>editingResult\<close> change.
\<close>

theorem save_replaces_only_edited_result:
  assumes "editingResult st = Some er" and "results st = Some rs"
  shows "\<exists>st' rs'. handleSaveSingle (Some nb) ex act st = Inr st'
           \<and> results st' = Some rs'
           \<and> length rs' = length rs
           \<and> map ident rs' = map ident rs
           \<and> (\<forall>i<length rs.
                 (ident (rs ! i) \<noteq> ident er \<longrightarrow> rs' ! i = rs ! i)
               \<and> (ident (rs ! i) = ident er \<longrightarrow> rs' ! i = replace_result nb ex (rs ! i)))
           \<and> st' = st\<lparr>results := Some rs', editingResult := editingResult st'\<rparr>"
proof -
  define rs' where "rs' = map (\<lambda>r. if ident r = ident er then replace_result nb ex r else r) rs"
  define st' where "st' = st\<lparr>results := Some rs',
      editingResult := (if act = Close then None else Some er)\<rparr>"
  have "handleSaveSingle (Some nb) ex act st = Inr st'"
    by (simp add: handleSaveSingle_saved[OF assms] st'_def rs'_def)
  moreover have "results st' = Some rs'"
    and "st' = st\<lparr>results := Some rs', editingResult := editingResult st'\<rparr>"
    by (simp_all add: st'_def)
  moreover have "length rs' = length rs"
    by (simp add: rs'_def)
  moreover have "map ident rs' = map ident rs"
    by (simp add: rs'_def ident_replace_result cong: map_cong)
  moreover have "\<forall>i<length rs.
                 (ident (rs ! i) \<noteq> ident er \<longrightarrow> rs' ! i = rs ! i)
               \<and> (ident (rs ! i) = ident er \<longrightarrow> rs' ! i = replace_result nb ex (rs ! i))"
    by (simp add: rs'_def)
  ultimately show ?thesis
    by blast
qed

theorem save_replaces_only_edited_result_witness:
  "editingResult editing_state = Some (two_results ! 0)
   \<and> results editing_state = Some two_results
   \<and> handleSaveSingle (Some sample_blob) sample_extra Stay editing_state
       = Inr (editing_state\<lparr>results :=
                Some [replace_result sample_blob sample_extra (two_results ! 0), two_results ! 1]\<rparr>)"
proof -
  have h: "editingResult editing_state = Some (two_results ! 0)"
    "results editing_state = Some two_results"
    by (simp_all add: editing_state_def)
  from save_replaces_only_edited_result [OF h, of sample_blob sample_extra Stay]
  obtain st' rs' where s: "handleSaveSingle (Some sample_blob) sample_extra Stay editing_state = Inr st'"
    "results st' = Some rs'" "length rs' = length two_results"
    "\<forall>i<length two_results.
        (ident (two_results ! i) \<noteq> ident (two_results ! 0) \<longrightarrow> rs' ! i = two_results ! i)
      \<and> (ident (two_results ! i) = ident (two_results ! 0) \<longrightarrow>
            rs' ! i = replace_result sample_blob sample_extra (two_results ! i))"
    "st' = editing_state\<lparr>results := Some rs', editingResult := editingResult st'\<rparr>"
    by blast
  have ids: "ident (two_results ! 0) = 0" "ident (two_results ! 1) = 1" "length two_results = 2"
    by (simp_all add: two_results_def new_result_def)
  from s(3,4) ids have "rs' ! 0 = replace_result sample_blob sample_extra (two_results ! 0)"
    and "rs' ! 1 = two_results ! 1" and "length rs' = 2"
    by simp_all
  then have rs': "rs' = [replace_result sample_blob sample_extra (two_results ! 0), two_results ! 1]"
    by (intro nth_equalityI) (auto simp: less_Suc_eq numeral_2_eq_2)
  have "editingResult st' = Some (two_results ! 0)"
    using s(1) by (simp add: handleSaveSingle_saved[OF h])  auto
  with s(1,5) rs' h show ?thesis
    by simp
qed

section \<open>Properties of the batch split\<close>

lemma alerts_generateImageBlob:
  "set (snd (generateImageBlob v env img rect mg off sq bg osz fmt))
     \<subseteq> {''GIF generation failed, falling back to PNG.''}"
  by (simp add: generateImageBlob_def Let_def split: format.splits option.splits)

lemma alerts_compose_cell:
  "set (snd (compose_cell v env img rect osz fmt))
     \<subseteq> {''GIF generation failed, falling back to PNG.''}"
  unfolding compose_cell_def by (rule alerts_generateImageBlob)

lemma split_cells_abort:
  assumes "k < length rects"
    and "\<forall>b. fst (compose_cell v (envs (n + k)) img (rects ! k) osz fmt) \<noteq> Inr (Some b)"
    and "\<forall>j<k. \<exists>b. fst (compose_cell v (envs (n + j)) img (rects ! j) osz fmt) = Inr (Some b)"
  shows "\<exists>e al. split_cells v envs img osz fmt rects n acc shown = (Inl e, shown @ al)
           \<and> set al \<subseteq> {''GIF generation failed, falling back to PNG.''}"
  using assms
proof (induction rects arbitrary: k n acc shown)
  case Nil
  then show ?case by simp
next
  case (Cons rect rest)
  obtain r al where c: "compose_cell v (envs n) img rect osz fmt = (r, al)"
    by (cases "compose_cell v (envs n) img rect osz fmt")
  have al: "set al \<subseteq> {''GIF generation failed, falling back to PNG.''}"
    using alerts_compose_cell[of v "envs n" img rect osz fmt] by (simp add: c)
  show ?case
  proof (cases k)
    case 0
    with Cons.prems(2) c have "\<forall>b. r \<noteq> Inr (Some b)"
      by simp
    with c al show ?thesis
      by (cases r) (auto split: option.splits)
  next
    case (Suc k')
    with Cons.prems(3)[rule_format, of 0] c obtain b where b: "r = Inr (Some b)"
      by auto
    have "k' < length rest"
      using Cons.prems(1) Suc by simp
    moreover have "\<forall>b. fst (compose_cell v (envs (n + 1 + k')) img (rest ! k') osz fmt)
        \<noteq> Inr (Some b)"
      using Cons.prems(2) Suc by simp
    moreover have "\<forall>j<k'. \<exists>b. fst (compose_cell v (envs (n + 1 + j)) img (rest ! j) osz fmt)
        = Inr (Some b)"
    proof (intro allI impI)
      fix j assume "j < k'"
      then have "Suc j < k" using Suc by simp
      from Cons.prems(3)[rule_format, OF this]
      show "\<exists>b. fst (compose_cell v (envs (n + 1 + j)) img (rest ! j) osz fmt) = Inr (Some b)"
        by simp
    qed
    ultimately obtain e al' where
      "split_cells v envs img osz fmt rest (n + 1)
         (acc @ [new_result n b fmt rect osz]) (shown @ al) = (Inl e, (shown @ al) @ al')"
      and "set al' \<subseteq> {''GIF generation failed, falling back to PNG.''}"
      using Cons.IH by blast
    with c b al show ?thesis
      by (intro exI[of _ e] exI[of _ "al @ al'"]) simp
  qed
qed

lemma split_cells_later_browsers:
  assumes "k < length rects"
    and "\<forall>b. fst (compose_cell v (envs (n + k)) img (rects ! k) osz fmt) \<noteq> Inr (Some b)"
    and "\<forall>j\<le>k. envs' (n + j) = envs (n + j)"
  shows "split_cells v envs' img osz fmt rects n acc shown
           = split_cells v envs img osz fmt rects n acc shown"
  using assms
proof (induction rects arbitrary: k n acc shown)
  case Nil
  then show ?case by simp
next
  case (Cons rect rest)
  from Cons.prems(3)[rule_format, of 0] have same: "envs' n = envs n"
    by simp
  show ?case
  proof (cases k)
    case 0
    with Cons.prems(2) have "\<forall>b. fst (compose_cell v (envs n) img rect osz fmt) \<noteq> Inr (Some b)"
      by simp
    then show ?thesis
      by (auto simp: same split: prod.splits sum.splits option.splits)
  next
    case (Suc k')
    have "split_cells v envs' img osz fmt rest (n + 1) acc' shown'
        = split_cells v envs img osz fmt rest (n + 1) acc' shown'" for acc' shown'
    proof (rule Cons.IH[of k'])
      show "k' < length rest"
        using Cons.prems(1) Suc by simp
      show "\<forall>b. fst (compose_cell v (envs (n + 1 + k')) img (rest ! k') osz fmt) \<noteq> Inr (Some b)"
        using Cons.prems(2) Suc by simp
      show "\<forall>j\<le>k'. envs' (n + 1 + j) = envs (n + 1 + j)"
      proof (intro allI impI)
        fix j assume "j \<le> k'"
        then have "Suc j \<le> k" using Suc by simp
        from Cons.prems(3)[rule_format, OF this] show "envs' (n + 1 + j) = envs (n + 1 + j)"
          by simp
      qed
    qed
    then show ?thesis
      by (simp add: same split: prod.splits sum.splits option.splits)
  qed
qed


lemma two_by_two_rects:
  "cell_rects (sort (rowPositions two_by_two)) (sort (colPositions two_by_two))
     (real (naturalWidth sample_image)) (real (naturalHeight sample_image))
     (paddingX two_by_two) (paddingY two_by_two)
   = [\<lparr>rect_x = 0, rect_y = 0, rect_w = 200, rect_h = 200\<rparr>,
      \<lparr>rect_x = 200, rect_y = 0, rect_w = 200, rect_h = 200\<rparr>,
      \<lparr>rect_x = 0, rect_y = 200, rect_w = 200, rect_h = 200\<rparr>,
      \<lparr>rect_x = 200, rect_y = 200, rect_w = 200, rect_h = 200\<rparr>]"
proof -
  have "[0..<2] = [0, Suc 0]"
    by (simp add: upt_rec)
  then show ?thesis
    by (simp add: two_by_two_def loaded_state_eq initial_state_def sample_image_def
        cell_rects_def cellRect_def)
qed

lemma two_by_two_settings:
  "imageElement two_by_two = Some sample_image" "size_setting two_by_two = Auto"
  "fmt_setting two_by_two = PNG" "results two_by_two = None" "alerts two_by_two = []"
  by (simp_all add: two_by_two_def loaded_state_eq initial_state_def)

lemma compose_cell_sample:
  "compose_cell v sample_browser img rect Auto PNG =
     (Inr (Some (PngOf (Canvas (rect_w rect) (rect_h rect)
        [ClearRect 0 0 (rect_w rect) (rect_h rect),
         DrawImage img (rect_x rect) (rect_y rect) (rect_w rect) (rect_h rect)
           0 0 (rect_w rect) (rect_h rect)]))), [])"
  by (simp add: compose_cell_def generateImageBlob_PNG sample_browser_def plain_canvas
      final_canvas_Auto background_def)

lemma compose_cell_no_context:
  "compose_cell v (sample_browser\<lparr>base_context := False\<rparr>) img rect osz fmt
     = (Inl ContextCreationFailed, [])"
  by (simp add: compose_cell_def generateImageBlob_no_context)

text \<open>
  C1, as the source has it. For every batch split over a loaded image, if the call of
  \<open>generateImageBlob\<close> fails for one cell (it rejects, or resolves with \<open>null\<close>) after the cells
  before it succeeded, the batch ends there: the result set stays what it was before the
  split, none of the successful cells being collected; one message "Error splitting image" is
  shown, after the GIF fallback notices of the cells before; the processing flag is reset; and
  the remaining cells are not processed, for which the outcome does not depend on how the
  browser would serve them.
\<close>

theorem split_stops_at_failed_cell:
  assumes "imageElement st = Some img"
    and "rects = cell_rects (sort (rowPositions st)) (sort (colPositions st))
                   (real (naturalWidth img)) (real (naturalHeight img)) (paddingX st) (paddingY st)"
    and "k < length rects"
    and "\<forall>b. fst (compose_cell v (envs k) img (rects ! k) (size_setting st) (fmt_setting st))
               \<noteq> Inr (Some b)"
    and "\<forall>j<k. \<exists>b. fst (compose_cell v (envs j) img (rects ! j) (size_setting st) (fmt_setting st))
               = Inr (Some b)"
  shows "results (handleSplit v envs st) = results st
       \<and> isProcessing (handleSplit v envs st) = False
       \<and> (\<exists>al. alerts (handleSplit v envs st) = alerts st @ al @ [''Error splitting image'']
              \<and> set al \<subseteq> {''GIF generation failed, falling back to PNG.''})
       \<and> (\<forall>envs'. (\<forall>j\<le>k. envs' j = envs j) \<longrightarrow> handleSplit v envs' st = handleSplit v envs st)"
proof -
  from split_cells_abort[of k rects v envs 0 img "size_setting st" "fmt_setting st" "[]" "[]"]
    assms(3-5)
  obtain e al where
    run: "split_cells v envs img (size_setting st) (fmt_setting st) rects 0 [] [] = (Inl e, al)"
    and al: "set al \<subseteq> {''GIF generation failed, falling back to PNG.''}"
    by auto
  have st': "handleSplit v envs st =
      st\<lparr>alerts := alerts st @ al @ [''Error splitting image''], isProcessing := False\<rparr>"
    using assms(1) run by (simp add: handleSplit_def Let_def assms(2)[symmetric])
  have "handleSplit v envs' st = handleSplit v envs st" if "\<forall>j\<le>k. envs' j = envs j" for envs'
  proof -
    have "split_cells v envs' img (size_setting st) (fmt_setting st) rects 0 [] []
        = split_cells v envs img (size_setting st) (fmt_setting st) rects 0 [] []"
      using assms(3,4) that by (intro split_cells_later_browsers[of k]) simp_all
    then show ?thesis
      using assms(1) by (simp add: handleSplit_def Let_def assms(2)[symmetric])
  qed
  with al show ?thesis
    unfolding st' by auto
qed

theorem split_stops_at_failed_cell_witness:
  "imageElement two_by_two = Some sample_image
   \<and> results (handleSplit Part000 second_cell_fails two_by_two) = results two_by_two
   \<and> isProcessing (handleSplit Part000 second_cell_fails two_by_two) = False
   \<and> handleSplit Part000 (second_cell_fails(2 := sample_browser\<lparr>toBlob_result := False\<rparr>))
        two_by_two
       = handleSplit Part000 second_cell_fails two_by_two"
proof -
  define rects where "rects = cell_rects (sort (rowPositions two_by_two))
    (sort (colPositions two_by_two)) (real (naturalWidth sample_image))
    (real (naturalHeight sample_image)) (paddingX two_by_two) (paddingY two_by_two)"
  have b: "second_cell_fails 0 = sample_browser"
    "second_cell_fails (Suc 0) = sample_browser\<lparr>base_context := False\<rparr>"
    by (simp_all add: second_cell_fails_def)
  have h1: "imageElement two_by_two = Some sample_image"
    by (rule two_by_two_settings)
  have h3: "1 < length rects"
    by (simp add: rects_def two_by_two_rects)
  have h4: "\<forall>b. fst (compose_cell Part000 (second_cell_fails 1) sample_image (rects ! 1)
      (size_setting two_by_two) (fmt_setting two_by_two)) \<noteq> Inr (Some b)"
    by (simp add: b compose_cell_no_context)
  have h5: "\<forall>j<1. \<exists>b. fst (compose_cell Part000 (second_cell_fails j) sample_image (rects ! j)
      (size_setting two_by_two) (fmt_setting two_by_two)) = Inr (Some b)"
    by (simp add: b compose_cell_sample two_by_two_settings)
  note t = split_stops_at_failed_cell [OF h1 rects_def h3 h4 h5]
  have "\<forall>j\<le>1. (second_cell_fails(2 := sample_browser\<lparr>toBlob_result := False\<rparr>)) j
      = second_cell_fails j"
    by simp
  with t have "handleSplit Part000 (second_cell_fails(2 := sample_browser\<lparr>toBlob_result := False\<rparr>))
        two_by_two = handleSplit Part000 second_cell_fails two_by_two"
    by blast
  with t h1 show ?thesis
    by blast
qed

text \<open>
  The 400 by 400 image cut two by two: when every call succeeds the result set holds the
  four cells, numbered in row-major order; when the second call fails there is no result set,
  the first cell included, and one message.
\<close>

lemma split_two_by_two:
  "map_option (map (\<lambda>r. (ident r, originalRect r)))
       (results (handleSplit Part000 all_succeed two_by_two))
     = Some [(0, \<lparr>rect_x = 0, rect_y = 0, rect_w = 200, rect_h = 200\<rparr>),
             (1, \<lparr>rect_x = 200, rect_y = 0, rect_w = 200, rect_h = 200\<rparr>),
             (2, \<lparr>rect_x = 0, rect_y = 200, rect_w = 200, rect_h = 200\<rparr>),
             (3, \<lparr>rect_x = 200, rect_y = 200, rect_w = 200, rect_h = 200\<rparr>)]"
  by (simp add: handleSplit_def Let_def two_by_two_rects two_by_two_settings all_succeed_def
      compose_cell_sample new_result_def)

theorem split_discards_successful_cells:
  "fst (compose_cell Part000 (second_cell_fails 0) sample_image
          \<lparr>rect_x = 0, rect_y = 0, rect_w = 200, rect_h = 200\<rparr> Auto PNG)
     = Inr (Some (PngOf (Canvas 200 200
         [ClearRect 0 0 200 200, DrawImage sample_image 0 0 200 200 0 0 200 200])))
   \<and> fst (compose_cell Part000 (second_cell_fails 1) sample_image
          \<lparr>rect_x = 200, rect_y = 0, rect_w = 200, rect_h = 200\<rparr> Auto PNG)
     = Inl ContextCreationFailed
   \<and> results (handleSplit Part000 second_cell_fails two_by_two) = None
   \<and> alerts (handleSplit Part000 second_cell_fails two_by_two) = [''Error splitting image'']
   \<and> map_option (map ident) (results (handleSplit Part000 all_succeed two_by_two))
       = Some [0, 1, 2, 3]"
proof -
  have b: "second_cell_fails 0 = sample_browser"
    "second_cell_fails (Suc 0) = sample_browser\<lparr>base_context := False\<rparr>"
    by (simp_all add: second_cell_fails_def)
  have "map_option (map ident) (results (handleSplit Part000 all_succeed two_by_two))
       = Some [0, 1, 2, 3]"
    by (simp add: handleSplit_def Let_def two_by_two_rects two_by_two_settings all_succeed_def
      compose_cell_sample new_result_def)
  then show ?thesis
    by (simp add: handleSplit_def Let_def two_by_two_rects two_by_two_settings b
        compose_cell_sample compose_cell_no_context)
qed

end
